theory Spec2Isabelle
  imports Complex_Main "HOL-Library.Char_ord" "HOL-Library.List_Lexorder" "HOL-Library.Log_Nat"
begin

section \<open>JavaScript values used by the coverage engine\<close>

text \<open>
  The sources are TypeScript running on JavaScript numbers and strings. A number is an
  IEEE 754 double: \<open>NaN\<close>, or \<open>Num q\<close> with \<open>q\<close> the rational that the double stands
  for. Every operation that JavaScript rounds (\<open>+\<close>, \<open>-\<close>, \<open>*\<close>, \<open>/\<close>, the reading of a
  decimal text) computes the exact result and rounds it with \<open>fl\<close> to the nearest
  double, so that \<open>0.85 - 0.8\<close> is \<open>0.04999999999999993\<close> here as it is in the
  sources. The two infinities and the negative zero are not modelled: every division
  of the sources is guarded by a test that its divisor is not zero, a result beyond
  the largest double (about \<open>1.8e308\<close>) is kept as a number of 53 significant bits
  where JavaScript has \<open>Infinity\<close>, and the sources never look at the sign of a zero.
  The attributes that the XML reader hands over are strings, or absent (\<open>undefined\<close>).
\<close>

datatype jsnum = NaN | Num rat

datatype jsval = Undefined | JNum jsnum | JStr string

subsection \<open>Rounding to a double\<close>

text \<open>The integer nearest to \<open>m\<close>, the even one of the two when \<open>m\<close> lies half way.\<close>

definition rhe :: "rat \<Rightarrow> int" where
  "rhe m =
     (let f = \<lfloor>m\<rfloor>; r = m - of_int f
      in if r < 1 / 2 then f else if 1 / 2 < r then f + 1 else if even f then f else f + 1)"

text \<open>The binary exponent of a positive \<open>x\<close>: the \<open>e\<close> with \<open>2^e \<le> x < 2^(e+1)\<close>.\<close>

definition bexp :: "rat \<Rightarrow> int" where
  "bexp x =
     (if 1 \<le> x then bitlen \<lfloor>x\<rfloor> - 1
      else (let k = bitlen \<lfloor>1 / x\<rfloor> - 1 in if x = 2 powi (- k) then - k else - k - 1))"

text \<open>
  The double nearest to \<open>x\<close>, a tie going to the even significand: a double of the
  exponent \<open>e\<close> is a multiple of \<open>2^(e-52)\<close>, and below \<open>2^(-1022)\<close> the doubles are the
  multiples of \<open>2^(-1074)\<close>.
\<close>

definition fl :: "rat \<Rightarrow> rat" where
  "fl x =
     (if x = 0 then 0
      else (let e = max (bexp \<bar>x\<bar>) (- 1022); u = 2 powi (e - 52)
            in sgn x * of_int (rhe (\<bar>x\<bar> / u)) * u))"

text \<open>The comparison operators: every comparison with \<open>NaN\<close> is false.\<close>

fun js_gt :: "jsnum \<Rightarrow> jsnum \<Rightarrow> bool" where
  "js_gt (Num a) (Num b) = (a > b)"
| "js_gt _ _ = False"

fun js_lt :: "jsnum \<Rightarrow> jsnum \<Rightarrow> bool" where
  "js_lt (Num a) (Num b) = (a < b)"
| "js_lt _ _ = False"

fun js_ge :: "jsnum \<Rightarrow> jsnum \<Rightarrow> bool" where
  "js_ge (Num a) (Num b) = (a \<ge> b)"
| "js_ge _ _ = False"

fun js_le :: "jsnum \<Rightarrow> jsnum \<Rightarrow> bool" where
  "js_le (Num a) (Num b) = (a \<le> b)"
| "js_le _ _ = False"

fun js_eq :: "jsnum \<Rightarrow> jsnum \<Rightarrow> bool" where
  "js_eq (Num a) (Num b) = (a = b)"
| "js_eq _ _ = False"

text \<open>
  The arithmetic operators on numbers: the exact result, rounded to a double;
  \<open>NaN\<close> is absorbing.
\<close>

fun js_add :: "jsnum \<Rightarrow> jsnum \<Rightarrow> jsnum" where
  "js_add (Num a) (Num b) = Num (fl (a + b))"
| "js_add _ _ = NaN"

fun js_sub :: "jsnum \<Rightarrow> jsnum \<Rightarrow> jsnum" where
  "js_sub (Num a) (Num b) = Num (fl (a - b))"
| "js_sub _ _ = NaN"

fun js_mul :: "jsnum \<Rightarrow> jsnum \<Rightarrow> jsnum" where
  "js_mul (Num a) (Num b) = Num (fl (a * b))"
| "js_mul _ _ = NaN"

text \<open>
  \<open>a / b\<close>. The sources divide only behind a guard (\<open>total == 0 ? ... : covered / total\<close>,
  \<open>totalLines > 0 ? totalRangeLines / totalLines : 1\<close>), so the divisor is never zero
  where the model divides; \<open>0 / 0\<close> is \<open>NaN\<close> as in JavaScript, and a nonzero number
  over zero (an infinity in JavaScript) is not reached.
\<close>

fun js_div :: "jsnum \<Rightarrow> jsnum \<Rightarrow> jsnum" where
  "js_div (Num a) (Num b) = (if b = 0 then NaN else Num (fl (a / b)))"
| "js_div _ _ = NaN"

text \<open>\<open>Math.abs\<close> and the unary minus are exact: the doubles are symmetric about zero.\<close>

fun js_abs :: "jsnum \<Rightarrow> jsnum" where
  "js_abs (Num a) = Num \<bar>a\<bar>"
| "js_abs NaN = NaN"

fun js_neg :: "jsnum \<Rightarrow> jsnum" where
  "js_neg (Num a) = Num (- a)"
| "js_neg NaN = NaN"

text \<open>
  \<open>Math.round\<close>: the nearest integer, a tie going up; the result is an integer or
  \<open>NaN\<close>. It is exact: the integer nearest to a double is a double.
\<close>

fun Math_round :: "jsnum \<Rightarrow> int option" where
  "Math_round (Num a) = Some \<lfloor>a + 1 / 2\<rfloor>"
| "Math_round NaN = None"

fun num_of_int :: "int option \<Rightarrow> jsnum" where
  "num_of_int (Some i) = Num (of_int i)"
| "num_of_int None = NaN"

subsection \<open>Digits\<close>

definition is_digit :: "char \<Rightarrow> bool" where
  "is_digit c = (c \<in> set ''0123456789'')"

definition is_space :: "char \<Rightarrow> bool" where
  "is_space c = (c \<in> set [CHR '' '', CHR 0x09, CHR 0x0A, CHR 0x0B, CHR 0x0C, CHR 0x0D])"

definition digit_val :: "char \<Rightarrow> nat" where
  "digit_val c = of_char c - 48"

definition digits_val :: "string \<Rightarrow> nat" where
  "digits_val s = foldl (\<lambda>a c. 10 * a + digit_val c) 0 s"

text \<open>The character of a digit \<open>d < 10\<close>.\<close>

definition digit_char :: "nat \<Rightarrow> char" where
  "digit_char d = ''0123456789'' ! d"

text \<open>The decimal digits of a natural number, as \<open>String(n)\<close> writes them.\<close>

fun digits_of :: "nat \<Rightarrow> string" where
  "digits_of n = (if n < 10 then [digit_char n] else digits_of (n div 10) @ [digit_char (n mod 10)])"

declare digits_of.simps [simp del]

text \<open>
  \<open>String(i)\<close> for an integer or \<open>NaN\<close> (the exponent notation that JavaScript uses from
  \<open>1e21\<close> on is not modelled).
\<close>

fun js_ToString_int :: "int option \<Rightarrow> string" where
  "js_ToString_int None = ''NaN''"
| "js_ToString_int (Some i) = (if i < 0 then ''-'' @ digits_of (nat (- i)) else digits_of (nat i))"

subsection \<open>\<open>Number(...)\<close> and \<open>parseInt(..., 10)\<close>\<close>

definition trim :: "string \<Rightarrow> string" where
  "trim s = rev (dropWhile is_space (rev (dropWhile is_space s)))"

text \<open>
  \<open>Number(s)\<close> on a string: blanks around it are dropped, the empty string is \<open>0\<close>, and
  a decimal literal (an optional sign, digits, an optional fraction) is the double
  nearest to its value; anything else is \<open>NaN\<close>. The exponent part, the \<open>0x\<close>/\<open>0o\<close>/\<open>0b\<close> literals and
  \<open>Infinity\<close>, which \<open>Number\<close> also reads, are not modelled: Clover writes its counts,
  and the action reads its limits, as plain decimals.
\<close>

definition unsigned_decimal :: "string \<Rightarrow> jsnum" where
  "unsigned_decimal u =
     (let ip = takeWhile is_digit u; rest = dropWhile is_digit u
      in case rest of
           [] \<Rightarrow> if ip = [] then NaN else Num (fl (of_nat (digits_val ip)))
         | c # fp \<Rightarrow>
             if c = CHR ''.'' \<and> list_all is_digit fp \<and> \<not> (ip = [] \<and> fp = [])
             then Num (fl (of_nat (digits_val ip) + of_nat (digits_val fp) / 10 ^ length fp))
             else NaN)"

definition Number_str :: "string \<Rightarrow> jsnum" where
  "Number_str s =
     (let t = trim s
      in case t of
           [] \<Rightarrow> Num 0
         | c # r \<Rightarrow>
             if c = CHR ''-'' then js_neg (unsigned_decimal r)
             else if c = CHR ''+'' then unsigned_decimal r
             else unsigned_decimal t)"

text \<open>\<open>Number(v)\<close>, also the coercion that the arithmetic and comparison operators apply to an operand.\<close>

fun Number :: "jsval \<Rightarrow> jsnum" where
  "Number Undefined = NaN"
| "Number (JNum n) = n"
| "Number (JStr s) = Number_str s"

text \<open>
  \<open>parseInt(s, 10)\<close>: leading blanks are skipped, a sign is read, then the longest run of
  digits; with no digit the result is \<open>NaN\<close> (\<open>None\<close>). \<open>parseInt(undefined, 10)\<close> reads
  the string \<open>"undefined"\<close> and is \<open>NaN\<close>. The result is kept as an integer: the line
  numbers and hit counts that the sources parse are whole numbers below \<open>2^53\<close>,
  which the doubles hold without rounding.
\<close>

definition parseInt_str :: "string \<Rightarrow> int option" where
  "parseInt_str s =
     (let t = dropWhile is_space s;
          neg = (case t of [] \<Rightarrow> False | c # _ \<Rightarrow> c = CHR ''-'');
          u = (case t of [] \<Rightarrow> [] | c # r \<Rightarrow> if c = CHR ''-'' \<or> c = CHR ''+'' then r else t);
          ds = takeWhile is_digit u
      in if ds = [] then None
         else Some (if neg then - int (digits_val ds) else int (digits_val ds)))"

fun parseInt :: "string option \<Rightarrow> int option" where
  "parseInt None = None"
| "parseInt (Some s) = parseInt_str s"

subsection \<open>\<open>toFixed\<close>\<close>

text \<open>
  \<open>x.toFixed(f)\<close> takes the integer \<open>n\<close> nearest to \<open>|x| * 10^f\<close> (the larger one on a
  tie) and writes it with \<open>f\<close> decimals behind the sign of \<open>x\<close>; \<open>x\<close> is the exact value
  of the double and the product is not rounded, so \<open>0.01875\<close>, whose double lies below
  \<open>3 / 160\<close>, is written \<open>0.0187\<close>. \<open>toFixed_val\<close> is the value of that text, \<open>toFixed\<close>
  the text itself, and \<open>parseFloat\<close> reads the text back as the double nearest to its
  value. (From \<open>1e21\<close> on JavaScript writes the exponent notation, which is not
  modelled.)
\<close>

definition toFixed_n :: "nat \<Rightarrow> rat \<Rightarrow> nat" where
  "toFixed_n f x = nat \<lfloor>\<bar>x\<bar> * 10 ^ f + 1 / 2\<rfloor>"

definition toFixed_val :: "nat \<Rightarrow> rat \<Rightarrow> rat" where
  "toFixed_val f x = (if x < 0 then - (of_nat (toFixed_n f x) / 10 ^ f) else of_nat (toFixed_n f x) / 10 ^ f)"


fun parseFloat_toFixed :: "nat \<Rightarrow> jsnum \<Rightarrow> jsnum" where
  "parseFloat_toFixed f NaN = NaN"
| "parseFloat_toFixed f (Num x) = Num (fl (toFixed_val f x))"

section \<open>The metric model (\<open>src/types/index.ts\<close>)\<close>

record coverage =
  total :: jsnum
  covered :: jsnum
  percentual :: jsnum

text \<open>The constructor of class \<open>Coverage\<close>.\<close>

definition Coverage :: "jsval \<Rightarrow> jsval \<Rightarrow> coverage" where
  "Coverage t c =
     (let tot = Number t; cov = Number c
      in \<lparr>total = tot, covered = cov,
          percentual = (if js_eq tot (Num 0) then Num 1
                        else parseFloat_toFixed 4 (js_div cov tot))\<rparr>)"

text \<open>A fraction in the closed unit interval.\<close>

fun in_unit :: "jsnum \<Rightarrow> bool" where
  "in_unit (Num q) = (0 \<le> q \<and> q \<le> 1)"
| "in_unit NaN = False"


record stats_metrics =
  lines :: coverage
  methods :: coverage
  branches :: coverage

record line_cov =
  line :: string
  coverage :: nat

text \<open>The name of a method line is an attribute of the report, so it may be absent.\<close>

record method_cov =
  "method" :: "string option"
  coverage :: nat

record file_metrics = stats_metrics +
  lineCoverage :: "line_cov list"
  methodCoverage :: "method_cov list"

record file_record =
  name :: string
  metrics :: file_metrics

record folder =
  name :: string
  files :: "file_record list"

text \<open>
  A \<open>Map<string, Folder>\<close> is the list of its entries in insertion order; the keys of a
  \<open>Map\<close> are distinct. \<open>Map_set\<close> overwrites the value of a key that is present, where
  it stands, and appends a new key at the end.
\<close>

type_synonym folder_map = "(string \<times> folder) list"

definition Map_has :: "folder_map \<Rightarrow> string \<Rightarrow> bool" where
  "Map_has m k = (map_of m k \<noteq> None)"

definition Map_get :: "folder_map \<Rightarrow> string \<Rightarrow> folder option" where
  "Map_get m k = map_of m k"

fun Map_set :: "folder_map \<Rightarrow> string \<Rightarrow> folder \<Rightarrow> folder_map" where
  "Map_set [] k v = [(k, v)]"
| "Map_set ((k', v') # m) k v = (if k' = k then (k, v) # m else (k', v') # Map_set m k v)"

record stats =
  total :: stats_metrics
  folders :: folder_map

text \<open>\<open>Folder.push\<close> with one file: the file is appended.\<close>

definition push :: "folder \<Rightarrow> file_record \<Rightarrow> folder" where
  "push fo f = fo\<lparr>files := files fo @ [f]\<rparr>"

text \<open>\<open>Folder.get\<close>: the first file of that name, \<open>null\<close> (\<open>None\<close>) when there is none.\<close>

definition Folder_get :: "folder \<Rightarrow> string \<Rightarrow> file_record option" where
  "Folder_get fo n = find (\<lambda>f. file_record.name f = n) (files fo)"

text \<open>\<open>Stats.get\<close>: \<open>this.folders.get(folder)?.get(file)\<close>.\<close>

definition Stats_get :: "stats \<Rightarrow> string \<Rightarrow> string \<Rightarrow> file_record option" where
  "Stats_get s fo n = (case Map_get (folders s) fo of None \<Rightarrow> None | Some d \<Rightarrow> Folder_get d n)"

section \<open>The parsed Clover document\<close>

text \<open>
  \<open>xml2json(str, {compact: true})\<close> is a function of the package \<open>xml-js\<close>; the model
  takes it as a parameter that either throws, as it does on a text that is not well
  formed (\<open>None\<close>), or returns the document. In the compact form an attribute is a string, an attribute that is not
  written is absent, an element that occurs once is an object and one that occurs
  several times an array (here: a list of one or of several elements, the empty list
  when the element does not occur).

  A \<open>metrics\<close> element is only ever read through \<open>x.metrics._attributes\<close>, which throws
  a \<open>TypeError\<close> when the element or all its attributes are missing: both are \<open>None\<close>.
  A \<open>file\<close> element without attributes behaves as one with neither \<open>name\<close> nor
  \<open>path\<close>: the first read of its name throws a \<open>TypeError\<close>.
\<close>

text \<open>
  What the sources can throw: the error of the XML reader, which \<open>fromString\<close> does not
  catch, and the \<open>TypeError\<close> of reading a property of \<open>undefined\<close>.
\<close>

datatype error = ParseError | TypeError

record metrics_attrs =
  statements :: "string option"
  coveredstatements :: "string option"
  methods :: "string option"
  coveredmethods :: "string option"
  conditionals :: "string option"
  coveredconditionals :: "string option"

record line_attrs =
  num :: "string option"
  count :: "string option"
  type :: "string option"
  name :: "string option"

record file_xml =
  name :: "string option"
  path :: "string option"
  metrics :: "metrics_attrs option"
  line :: "line_attrs option list"

record package_xml =
  "file" :: "file_xml list"

record project_xml =
  "file" :: "file_xml list"
  package :: "package_xml list"
  metrics :: "metrics_attrs option"

record coverage_xml =
  project :: "project_xml option"

record clover_xml =
  coverage :: "coverage_xml option"

type_synonym xml_reader = "string \<Rightarrow> clover_xml option"

text \<open>An attribute as a JavaScript value.\<close>

fun attr :: "string option \<Rightarrow> jsval" where
  "attr None = Undefined"
| "attr (Some s) = JStr s"

section \<open>Ingestion (\<open>clover\<close> module)\<close>

subsection \<open>\<open>createFileMetrics\<close>\<close>

record range =
  range_start :: "int option"
  range_end :: "int option"
  coverage :: nat

text \<open>
  \<open>lineGroups\<close> is an object whose keys are \<open>"0"\<close> and \<open>"100"\<close>: the list of its
  properties. \<open>Object.keys\<close> lists integer keys in ascending numeric order, whatever the
  order in which they were created.
\<close>

type_synonym line_groups = "(nat \<times> range list) list"

definition group_get :: "line_groups \<Rightarrow> nat \<Rightarrow> range list option" where
  "group_get g k = map_of g k"

fun group_put :: "line_groups \<Rightarrow> nat \<Rightarrow> range list \<Rightarrow> line_groups" where
  "group_put [] k v = [(k, v)]"
| "group_put ((k', v') # g) k v = (if k' = k then (k, v) # g else (k', v') # group_put g k v)"

definition Object_keys :: "line_groups \<Rightarrow> nat list" where
  "Object_keys g = sort (map fst g)"

text \<open>
  \<open>lastRange && lastRange.end === lineNum - 1\<close>; \<open>===\<close> on numbers is false when either
  side is \<open>NaN\<close>.
\<close>

definition extends_last :: "range list \<Rightarrow> int option \<Rightarrow> bool" where
  "extends_last rs lineNum =
     (case rs of
        [] \<Rightarrow> False
      | _ \<Rightarrow> (case (range_end (last rs), lineNum) of
                (Some e, Some n) \<Rightarrow> e = n - 1
              | _ \<Rightarrow> False))"

record line_state =
  lineGroups :: line_groups
  methodCov :: "method_cov list"

text \<open>The body of \<open>lines.forEach\<close> in \<open>createFileMetrics\<close>, for one line record.\<close>

definition line_step :: "line_state \<Rightarrow> line_attrs option \<Rightarrow> error + line_state" where
  "line_step st l =
     (case l of
        None \<Rightarrow> Inl TypeError
      | Some a \<Rightarrow>
          (let lineNum = parseInt (num a);
               cnt = parseInt (count a);
               cov = (if js_gt (num_of_int cnt) (Num 0) then 100 else 0);
               g0 = (case group_get (lineGroups st) cov of
                       None \<Rightarrow> group_put (lineGroups st) cov []
                     | Some rs \<Rightarrow> lineGroups st);
               rs = (case group_get g0 cov of None \<Rightarrow> [] | Some rs \<Rightarrow> rs);
               rs' = (if extends_last rs lineNum
                      then butlast rs @ [(last rs)\<lparr>range_end := lineNum\<rparr>]
                      else rs @ [\<lparr>range_start = lineNum, range_end = lineNum, coverage = cov\<rparr>]);
               mc = (if type a = Some ''method''
                     then methodCov st @ [\<lparr>method = line_attrs.name a, method_cov.coverage = cov\<rparr>]
                     else methodCov st)
           in Inr \<lparr>lineGroups = group_put g0 cov rs', methodCov = mc\<rparr>))"

fun line_loop :: "line_state \<Rightarrow> line_attrs option list \<Rightarrow> error + line_state" where
  "line_loop st [] = Inr st"
| "line_loop st (l # ls) =
     (case line_step st l of Inl e \<Rightarrow> Inl e | Inr st' \<Rightarrow> line_loop st' ls)"

text \<open>The template strings \<open>`${range.start}`\<close> and \<open>`${range.start}-${range.end}`\<close>.\<close>

definition range_text :: "range \<Rightarrow> string" where
  "range_text r =
     (if range_start r \<noteq> None \<and> range_start r = range_end r then js_ToString_int (range_start r)
      else js_ToString_int (range_start r) @ ''-'' @ js_ToString_int (range_end r))"

definition range_entry :: "range \<Rightarrow> line_cov" where
  "range_entry r = \<lparr>line_cov.line = range_text r, line_cov.coverage = range.coverage r\<rparr>"

text \<open>The ranges in the order in which the two nested \<open>forEach\<close> push them.\<close>

definition ranges_in_key_order :: "line_groups \<Rightarrow> range list" where
  "ranges_in_key_order g =
     concat (map (\<lambda>k. case group_get g k of None \<Rightarrow> [] | Some rs \<Rightarrow> rs) (Object_keys g))"

definition createFileMetrics :: "metrics_attrs \<Rightarrow> line_attrs option list \<Rightarrow> error + file_metrics" where
  "createFileMetrics attributes ls =
     (case line_loop \<lparr>lineGroups = [], methodCov = []\<rparr> ls of
        Inl e \<Rightarrow> Inl e
      | Inr st \<Rightarrow>
          Inr \<lparr>lines = Coverage (attr (statements attributes)) (attr (coveredstatements attributes)),
               stats_metrics.methods = Coverage (attr (metrics_attrs.methods attributes)) (attr (coveredmethods attributes)),
               branches = Coverage (attr (conditionals attributes)) (attr (coveredconditionals attributes)),
               lineCoverage = map range_entry (ranges_in_key_order (lineGroups st)),
               methodCoverage = methodCov st\<rparr>)"


subsection \<open>String methods\<close>

definition startsWith :: "string \<Rightarrow> string \<Rightarrow> bool" where
  "startsWith s w = (take (length w) s = w)"

definition endsWith :: "string \<Rightarrow> string \<Rightarrow> bool" where
  "endsWith s w = (length w \<le> length s \<and> drop (length s - length w) s = w)"

text \<open>\<open>s.includes(sub)\<close>: \<open>sub\<close> occurs in \<open>s\<close> as a substring.\<close>

fun str_includes :: "string \<Rightarrow> string \<Rightarrow> bool" where
  "str_includes [] sub = (sub = [])"
| "str_includes (c # s) sub = (take (length sub) (c # s) = sub \<or> str_includes s sub)"

text \<open>\<open>s.split(c)\<close> for a separator of one character: never the empty list.\<close>

fun split :: "char \<Rightarrow> string \<Rightarrow> string list" where
  "split c [] = [[]]"
| "split c (x # xs) =
     (if x = c then [] # split c xs
      else (case split c xs of [] \<Rightarrow> [[x]] | h # t \<Rightarrow> (x # h) # t))"

fun join :: "string \<Rightarrow> string list \<Rightarrow> string" where
  "join sep [] = []"
| "join sep [x] = x"
| "join sep (x # y # ys) = x @ sep @ join sep (y # ys)"

subsection \<open>Folders and file names\<close>

text \<open>\<open>filePath.split("/").slice(0, -1).join("/")\<close>.\<close>

definition extractFolderFromPath :: "string \<Rightarrow> string" where
  "extractFolderFromPath filePath = join ''/'' (butlast (split (CHR ''/'') filePath))"

text \<open>\<open>filePath.split("/").pop() || filePath\<close>: the empty string is falsy.\<close>

definition extractFileNameFromPath :: "string \<Rightarrow> string" where
  "extractFileNameFromPath filePath =
     (let l = last (split (CHR ''/'') filePath) in if l = [] then filePath else l)"

text \<open>\<open>file._attributes.path || file._attributes.name\<close>.\<close>

definition normalizeFileNames :: "file_xml list \<Rightarrow> file_xml list" where
  "normalizeFileNames fs =
     map (\<lambda>f. f\<lparr>file_xml.name := (case path f of
                                      None \<Rightarrow> file_xml.name f
                                    | Some p \<Rightarrow> if p = [] then file_xml.name f else Some p)\<rparr>) fs"

text \<open>
  \<open>a._attributes.name < b._attributes.name\<close>: strings compare by their characters
  (as bytes here, as UTF-16 units in JavaScript: the same order on ASCII paths); with
  an \<open>undefined\<close> operand the comparison is false.
\<close>

fun name_lt :: "string option \<Rightarrow> string option \<Rightarrow> bool" where
  "name_lt (Some a) (Some b) = (a < b)"
| "name_lt _ _ = False"

text \<open>
  \<open>files.sort((a, b) => a.name < b.name ? -1 : 1)\<close>. The comparator never answers
  \<open>0\<close>; the runtime's sort puts an element behind every earlier one that it is not
  smaller than, so files of equal name keep their order: an insertion sort.
\<close>

fun insert_file :: "file_xml \<Rightarrow> file_xml list \<Rightarrow> file_xml list" where
  "insert_file x [] = [x]"
| "insert_file x (y # ys) =
     (if name_lt (file_xml.name x) (file_xml.name y) then x # y # ys else y # insert_file x ys)"

definition sortFilesByName :: "file_xml list \<Rightarrow> file_xml list" where
  "sortFilesByName fs = foldl (\<lambda>acc x. insert_file x acc) [] fs"

text \<open>
  \<open>extractFolderPaths\<close>: each file with its folder; \<open>split\<close> of an \<open>undefined\<close> name
  throws.
\<close>

fun extractFolderPaths :: "file_xml list \<Rightarrow> error + (file_xml \<times> string) list" where
  "extractFolderPaths [] = Inr []"
| "extractFolderPaths (f # fs) =
     (case file_xml.name f of
        None \<Rightarrow> Inl TypeError
      | Some n \<Rightarrow>
          (case extractFolderPaths fs of
             Inl e \<Rightarrow> Inl e
           | Inr r \<Rightarrow> Inr ((f, extractFolderFromPath n) # r)))"

text \<open>The body of the loop of \<open>groupFilesByFolder\<close>, for one file and its folder.\<close>

definition group_step :: "folder_map \<Rightarrow> file_xml \<times> string \<Rightarrow> error + folder_map" where
  "group_step foldersMap fd =
     (let fileData = fst fd; fo = snd fd
      in case file_xml.metrics fileData of
           None \<Rightarrow> Inl TypeError
         | Some m \<Rightarrow>
             (let m1 = (if \<not> Map_has foldersMap fo
                        then Map_set foldersMap fo \<lparr>folder.name = fo, files = []\<rparr>
                        else foldersMap)
              in case Map_get m1 fo of
                   None \<Rightarrow> Inl TypeError
                 | Some folderObj \<Rightarrow>
                     (case createFileMetrics m (file_xml.line fileData) of
                        Inl e \<Rightarrow> Inl e
                      | Inr fileMetrics \<Rightarrow>
                          (case file_xml.name fileData of
                             None \<Rightarrow> Inl TypeError
                           | Some n \<Rightarrow>
                               Inr (Map_set m1 fo
                                      (push folderObj
                                         \<lparr>file_record.name = extractFileNameFromPath n,
                                          metrics = fileMetrics\<rparr>))))))"

fun group_loop :: "folder_map \<Rightarrow> (file_xml \<times> string) list \<Rightarrow> error + folder_map" where
  "group_loop m [] = Inr m"
| "group_loop m (fd # fds) =
     (case group_step m fd of Inl e \<Rightarrow> Inl e | Inr m' \<Rightarrow> group_loop m' fds)"

definition groupFilesByFolder :: "(file_xml \<times> string) list \<Rightarrow> error + folder_map" where
  "groupFilesByFolder filesWithFolders = group_loop [] filesWithFolders"

definition processFilesIntoFolders :: "file_xml list \<Rightarrow> error + folder_map" where
  "processFilesIntoFolders fs =
     (case extractFolderPaths (sortFilesByName (normalizeFileNames fs)) of
        Inl e \<Rightarrow> Inl e
      | Inr filesWithFolders \<Rightarrow> groupFilesByFolder filesWithFolders)"

subsection \<open>Reading the document\<close>

text \<open>
  \<open>parseCloverXML\<close>: \<open>parsed.coverage.project\<close>, which throws when there is no
  \<open>coverage\<close> element and is \<open>undefined\<close> when there is no \<open>project\<close> element.
\<close>

definition parseCloverXML :: "xml_reader \<Rightarrow> string \<Rightarrow> error + project_xml option" where
  "parseCloverXML xml2json str =
     (case xml2json str of
        None \<Rightarrow> Inl ParseError
      | Some parsed \<Rightarrow>
          (case clover_xml.coverage parsed of
             None \<Rightarrow> Inl TypeError
           | Some c \<Rightarrow> Inr (project c)))"

definition getAllFiles :: "project_xml option \<Rightarrow> error + file_xml list" where
  "getAllFiles projectData =
     (case projectData of
        None \<Rightarrow> Inl TypeError
      | Some p \<Rightarrow>
          Inr (project_xml.file p @ foldl (\<lambda>acc pkg. acc @ package_xml.file pkg) [] (package p)))"

definition createTotalMetrics :: "metrics_attrs \<Rightarrow> stats_metrics" where
  "createTotalMetrics attributes =
     \<lparr>lines = Coverage (attr (statements attributes)) (attr (coveredstatements attributes)),
      stats_metrics.methods = Coverage (attr (metrics_attrs.methods attributes)) (attr (coveredmethods attributes)),
      branches = Coverage (attr (conditionals attributes)) (attr (coveredconditionals attributes))\<rparr>"


subsection \<open>Change-set attribution\<close>

text \<open>
  An entry of \<open>pullRequestFiles\<close> is a path (the older form) or an object with the
  properties \<open>file\<close> and \<open>lines\<close>, either of which may be missing; a line is a number
  or a text such as \<open>"12-20"\<close>.
\<close>

datatype line_info = LineNumber jsnum | LineText string

datatype pr_file = PrText string | PrObject "string option" "line_info list option"

text \<open>\<open>pullRequestFiles[0].hasOwnProperty('lines')\<close>, read when the list is not empty.\<close>

definition hasLineInfo :: "pr_file list \<Rightarrow> bool" where
  "hasLineInfo prs = (case prs of PrObject f (Some ls) # _ \<Rightarrow> True | _ \<Rightarrow> False)"

text \<open>\<open>workspace.endsWith("/") ? workspace : workspace.concat("/")\<close>.\<close>

definition workspace_prefix :: "string \<Rightarrow> string" where
  "workspace_prefix workspace = (if endsWith workspace ''/'' then workspace else workspace @ ''/'')"

text \<open>
  \<open>name.startsWith(w) ? name.slice(w.length) : name\<close>; reading \<open>startsWith\<close> of an
  \<open>undefined\<close> name throws.
\<close>

definition strip_prefix :: "string \<Rightarrow> string option \<Rightarrow> error + string" where
  "strip_prefix w n =
     (case n of
        None \<Rightarrow> Inl TypeError
      | Some s \<Rightarrow> Inr (if startsWith s w then drop (length w) s else s))"

text \<open>\<open>f.file && f.file.includes(fileName)\<close>: a text has no property \<open>file\<close>.\<close>

fun file_includes :: "string \<Rightarrow> pr_file \<Rightarrow> bool" where
  "file_includes fileName (PrText s) = False"
| "file_includes fileName (PrObject None ls) = False"
| "file_includes fileName (PrObject (Some p) ls) = (p \<noteq> [] \<and> str_includes p fileName)"

text \<open>
  The callback of \<open>pullRequestFiles.some\<close>. Without line information the entry itself
  is asked \<open>f.includes(fileName)\<close>, which an object does not have: a \<open>TypeError\<close>.
\<close>

fun pr_matches :: "bool \<Rightarrow> string \<Rightarrow> pr_file \<Rightarrow> error + bool" where
  "pr_matches True fileName f = Inr (file_includes fileName f)"
| "pr_matches False fileName (PrText s) = Inr (str_includes s fileName)"
| "pr_matches False fileName (PrObject p ls) = Inl TypeError"

fun some_pr :: "bool \<Rightarrow> string \<Rightarrow> pr_file list \<Rightarrow> error + bool" where
  "some_pr h fileName [] = Inr False"
| "some_pr h fileName (f # fs) =
     (case pr_matches h fileName f of
        Inl e \<Rightarrow> Inl e
      | Inr b \<Rightarrow> if b then Inr True else some_pr h fileName fs)"

text \<open>\<open>allFiles.filter(...)\<close> by the touched files.\<close>

fun filter_files :: "string \<Rightarrow> bool \<Rightarrow> pr_file list \<Rightarrow> file_xml list \<Rightarrow> error + file_xml list" where
  "filter_files w h prs [] = Inr []"
| "filter_files w h prs (f # fs) =
     (case strip_prefix w (file_xml.name f) of
        Inl e \<Rightarrow> Inl e
      | Inr fileName \<Rightarrow>
          (case some_pr h fileName prs of
             Inl e \<Rightarrow> Inl e
           | Inr b \<Rightarrow>
               (case filter_files w h prs fs of
                  Inl e \<Rightarrow> Inl e
                | Inr r \<Rightarrow> Inr (if b then f # r else r))))"

text \<open>
  One entry of \<open>prFile.lines\<close> as a range, \<open>null\<close> (\<open>None\<close>) for a text without
  \<open>-\<close>. \<open>const [start, end] = lineInfo.split('-').map(Number)\<close> takes the first two
  parts; a part that is missing is \<open>undefined\<close>, \<open>NaN\<close> in the arithmetic that follows.
\<close>

fun line_range :: "line_info \<Rightarrow> (jsnum \<times> jsnum) option" where
  "line_range (LineNumber n) = Some (n, n)"
| "line_range (LineText s) =
     (if str_includes s ''-''
      then (case map Number_str (split (CHR ''-'') s) of
              [] \<Rightarrow> Some (NaN, NaN)
            | [a] \<Rightarrow> Some (a, NaN)
            | a # b # _ \<Rightarrow> Some (a, b))
      else None)"

text \<open>\<open>prFile.lines.map(...).filter(Boolean)\<close>.\<close>

definition lineRanges :: "line_info list \<Rightarrow> (jsnum \<times> jsnum) list" where
  "lineRanges ls = List.map_filter line_range ls"

text \<open>\<open>lineRanges.reduce((sum, range) => sum + (range.end - range.start + 1), 0)\<close>.\<close>

definition totalRangeLines :: "(jsnum \<times> jsnum) list \<Rightarrow> jsnum" where
  "totalRangeLines rs = foldl (\<lambda>sum r. js_add sum (js_add (js_sub (snd r) (fst r)) (Num 1))) (Num 0) rs"

text \<open>
  The six counters of \<open>fromString\<close>. They start as the number \<open>0\<close>; \<open>+=\<close> with a
  number adds, \<open>+=\<close> with an attribute, which is a string, appends its text, and from
  then on the counter is a string. A number counter holds whole numbers (sums of
  results of \<open>Math.round\<close>) or \<open>NaN\<close>; the sum of two whole doubles is rounded to a
  double, which is whole again.
\<close>

datatype counter = CNum "int option" | CStr string

fun add_number :: "counter \<Rightarrow> int option \<Rightarrow> counter" where
  "add_number (CNum (Some a)) (Some b) = CNum (Some \<lfloor>fl (of_int a + of_int b)\<rfloor>)"
| "add_number (CNum a) b = CNum None"
| "add_number (CStr s) b = CStr (s @ js_ToString_int b)"

fun add_attr :: "counter \<Rightarrow> string option \<Rightarrow> counter" where
  "add_attr (CNum a) None = CNum None"
| "add_attr (CNum a) (Some s) = CStr (js_ToString_int a @ s)"
| "add_attr (CStr t) None = CStr (t @ ''undefined'')"
| "add_attr (CStr t) (Some s) = CStr (t @ s)"

fun counter_val :: "counter \<Rightarrow> jsval" where
  "counter_val (CNum a) = JNum (num_of_int a)"
| "counter_val (CStr s) = JStr s"

record counters =
  statements :: counter
  coveredStatements :: counter
  methods :: counter
  coveredMethods :: counter
  conditionals :: counter
  coveredConditionals :: counter

text \<open>The branch that counts the whole file: \<open>statements += file.metrics._attributes.statements\<close> and so on.\<close>

definition count_all :: "counters \<Rightarrow> metrics_attrs \<Rightarrow> counters" where
  "count_all c m =
     \<lparr>statements = add_attr (counters.statements c) (metrics_attrs.statements m),
      coveredStatements = add_attr (coveredStatements c) (coveredstatements m),
      methods = add_attr (counters.methods c) (metrics_attrs.methods m),
      coveredMethods = add_attr (coveredMethods c) (coveredmethods m),
      conditionals = add_attr (counters.conditionals c) (metrics_attrs.conditionals m),
      coveredConditionals = add_attr (coveredConditionals c) (coveredconditionals m)\<rparr>"

text \<open>\<open>x || 0\<close> on an attribute: \<open>undefined\<close> and the empty string are falsy.\<close>

fun or_zero :: "string option \<Rightarrow> jsval" where
  "or_zero None = JNum (Num 0)"
| "or_zero (Some s) = (if s = [] then JNum (Num 0) else JStr s)"

text \<open>\<open>total > 0 ? totalRangeLines / total : 1\<close>.\<close>

definition proportion :: "jsnum \<Rightarrow> jsval \<Rightarrow> jsnum" where
  "proportion rangeLines tot =
     (if js_gt (Number tot) (Num 0) then js_div rangeLines (Number tot) else Num 1)"

text \<open>The branch that counts only the touched lines of the file.\<close>

definition count_ranges :: "counters \<Rightarrow> metrics_attrs \<Rightarrow> line_info list \<Rightarrow> counters" where
  "count_ranges c m ls =
     (let rangeLines = totalRangeLines (lineRanges ls);
          totalLines = attr (metrics_attrs.statements m);
          coveredLines = attr (coveredstatements m);
          prop = proportion rangeLines totalLines;
          rangeStatements = Math_round (js_mul (Number totalLines) prop);
          rangeCoveredStatements = Math_round (js_mul (Number coveredLines) prop);
          methodTotal = or_zero (metrics_attrs.methods m);
          methodProportion = proportion rangeLines methodTotal;
          conditionalTotal = or_zero (metrics_attrs.conditionals m);
          conditionalProportion = proportion rangeLines conditionalTotal
      in \<lparr>statements = add_number (counters.statements c) rangeStatements,
          coveredStatements = add_number (coveredStatements c) rangeCoveredStatements,
          methods = add_number (counters.methods c) (Math_round (js_mul (Number methodTotal) methodProportion)),
          coveredMethods = add_number (coveredMethods c)
             (Math_round (js_mul (Number (attr (coveredmethods m))) methodProportion)),
          conditionals = add_number (counters.conditionals c)
             (Math_round (js_mul (Number conditionalTotal) conditionalProportion)),
          coveredConditionals = add_number (coveredConditionals c)
             (Math_round (js_mul (Number (attr (coveredconditionals m))) conditionalProportion))\<rparr>)"

text \<open>
  The body of \<open>allFiles.forEach\<close>, for one retained file. \<open>prFile\<close> is the first entry
  whose \<open>file\<close> includes the file's name.
\<close>

definition count_file :: "string \<Rightarrow> bool \<Rightarrow> pr_file list \<Rightarrow> counters \<Rightarrow> file_xml \<Rightarrow> error + counters" where
  "count_file w h prs c f =
     (case strip_prefix w (file_xml.name f) of
        Inl e \<Rightarrow> Inl e
      | Inr fileName \<Rightarrow>
          (case file_xml.metrics f of
             None \<Rightarrow> Inl TypeError
           | Some m \<Rightarrow>
               if h then
                 (case find (file_includes fileName) prs of
                    Some (PrObject p (Some ls)) \<Rightarrow>
                      if length ls > 0 then Inr (count_ranges c m ls) else Inr (count_all c m)
                  | _ \<Rightarrow> Inr (count_all c m))
               else Inr (count_all c m)))"

fun count_loop :: "string \<Rightarrow> bool \<Rightarrow> pr_file list \<Rightarrow> counters \<Rightarrow> file_xml list \<Rightarrow> error + counters" where
  "count_loop w h prs c [] = Inr c"
| "count_loop w h prs c (f # fs) =
     (case count_file w h prs c f of Inl e \<Rightarrow> Inl e | Inr c' \<Rightarrow> count_loop w h prs c' fs)"

definition zero_counters :: counters where
  "zero_counters =
     \<lparr>statements = CNum (Some 0), coveredStatements = CNum (Some 0),
      methods = CNum (Some 0), coveredMethods = CNum (Some 0),
      conditionals = CNum (Some 0), coveredConditionals = CNum (Some 0)\<rparr>"

definition counters_metrics :: "counters \<Rightarrow> stats_metrics" where
  "counters_metrics c =
     \<lparr>lines = Coverage (counter_val (counters.statements c)) (counter_val (coveredStatements c)),
      stats_metrics.methods = Coverage (counter_val (counters.methods c)) (counter_val (coveredMethods c)),
      branches = Coverage (counter_val (counters.conditionals c)) (counter_val (coveredConditionals c))\<rparr>"

subsection \<open>\<open>fromString\<close>\<close>

text \<open>
  \<open>xml2json\<close> is the reader of the package \<open>xml-js\<close>; \<open>workspace\<close> is the constant of
  the module, \<open>getInput("dir-prefix") || process.env.GITHUB_WORKSPACE\<close>, which the
  runner of the action always sets.
\<close>

definition fromString :: "xml_reader \<Rightarrow> string \<Rightarrow> string \<Rightarrow> pr_file list \<Rightarrow> error + stats" where
  "fromString xml2json workspace str pullRequestFiles =
     (case parseCloverXML xml2json str of
        Inl e \<Rightarrow> Inl e
      | Inr cloverData \<Rightarrow>
          (case getAllFiles cloverData of
             Inl e \<Rightarrow> Inl e
           | Inr allFiles \<Rightarrow>
               (case Option.bind cloverData project_xml.metrics of
                  None \<Rightarrow> Inl TypeError
                | Some attributes \<Rightarrow>
                    (case (if length pullRequestFiles > 0
                           then (let w = workspace_prefix workspace;
                                     h = hasLineInfo pullRequestFiles
                                 in case filter_files w h pullRequestFiles allFiles of
                                      Inl e \<Rightarrow> Inl e
                                    | Inr kept \<Rightarrow>
                                        (case count_loop w h pullRequestFiles zero_counters kept of
                                           Inl e \<Rightarrow> Inl e
                                         | Inr c \<Rightarrow> Inr (kept, counters_metrics c)))
                           else Inr (allFiles, createTotalMetrics attributes)) of
                       Inl e \<Rightarrow> Inl e
                     | Inr (files', totalMetrics) \<Rightarrow>
                         (case processFilesIntoFolders files' of
                            Inl e \<Rightarrow> Inl e
                          | Inr foldersMap \<Rightarrow>
                              Inr \<lparr>total = totalMetrics, folders = foldersMap\<rparr>)))))"


section \<open>Filtering and thresholds (\<open>index\<close> module)\<close>

subsection \<open>\<open>filter\<close>\<close>

record only_with =
  cover :: bool
  coverableLines :: bool

text \<open>
  \<open>keyof StatsMetrics\<close>: the three keys \<open>"lines"\<close>, \<open>"methods"\<close> and \<open>"branches"\<close>.
  The source tests \<open>if (onlyBetween.type)\<close>; every key is a string that is not empty, so
  only a missing type (\<open>None\<close>) is falsy.
\<close>

datatype metric_key = Lines | Methods | Branches

record only_between =
  type :: "metric_key option"
  min_v :: jsnum
  max_v :: jsnum
  delta :: jsnum

fun metric :: "metric_key \<Rightarrow> file_metrics \<Rightarrow> coverage" where
  "metric Lines m = lines m"
| "metric Methods m = stats_metrics.methods m"
| "metric Branches m = branches m"

text \<open>\<open>min <= (v || 0) && (v || 0) <= max\<close>: \<open>NaN\<close> is falsy.\<close>

definition between :: "jsnum \<Rightarrow> jsnum \<Rightarrow> jsnum \<Rightarrow> bool" where
  "between v mn mx =
     (let v0 = (case v of NaN \<Rightarrow> Num 0 | Num q \<Rightarrow> Num q) in js_le mn v0 \<and> js_le v0 mx)"

type_synonym file_filter = "file_record \<Rightarrow> string \<Rightarrow> bool"

text \<open>The four predicates that \<open>filter\<close> may push.\<close>

definition cover_filter :: file_filter where
  "cover_filter f fo = (\<not> js_eq (covered (lines (file_record.metrics f))) (Num 0))"

definition coverable_filter :: file_filter where
  "coverable_filter f fo = (\<not> js_eq (coverage.total (lines (file_record.metrics f))) (Num 0))"

definition range_filter :: "metric_key \<Rightarrow> jsnum \<Rightarrow> jsnum \<Rightarrow> file_filter" where
  "range_filter t mn mx f fo =
     between (js_mul (percentual (metric t (file_record.metrics f))) (Num 100)) mn mx"

definition delta_filter :: "metric_key \<Rightarrow> jsnum \<Rightarrow> stats \<Rightarrow> file_filter" where
  "delta_filter t d ob f fo =
     (case Stats_get ob fo (file_record.name f) of
        None \<Rightarrow> True
      | Some old \<Rightarrow>
          js_gt (js_mul (js_abs (js_sub (percentual (metric t (file_record.metrics f)))
                                        (percentual (metric t (file_record.metrics old)))))
                        (Num 100)) d)"

definition filters_of :: "only_with \<Rightarrow> only_between \<Rightarrow> stats option \<Rightarrow> file_filter list" where
  "filters_of onlyWith onlyBetween ob =
     (if cover onlyWith then [cover_filter] else []) @
     (if coverableLines onlyWith then [coverable_filter] else []) @
     (case only_between.type onlyBetween of
        None \<Rightarrow> []
      | Some t \<Rightarrow>
          (if js_gt (min_v onlyBetween) (Num 0) \<or> js_lt (max_v onlyBetween) (Num 100)
           then [range_filter t (min_v onlyBetween) (max_v onlyBetween)] else []) @
          (case ob of
             None \<Rightarrow> []
           | Some b \<Rightarrow> if js_gt (delta onlyBetween) (Num 0) then [delta_filter t (delta onlyBetween) b] else []))"

text \<open>\<open>filters.reduce((r, fn) => r && fn(f, key), true)\<close>.\<close>

definition passes :: "file_filter list \<Rightarrow> string \<Rightarrow> file_record \<Rightarrow> bool" where
  "passes filters key f = foldl (\<lambda>r fn. r \<and> fn f key) True filters"

text \<open>
  \<open>s.folders.forEach\<close>: the files of each folder are filtered, and a folder left without
  files is deleted from the map (the keys of a \<open>Map\<close> being distinct, \<open>delete(key)\<close>
  removes the entry that is being visited, and the others are still visited).
\<close>

fun filter_folders :: "file_filter list \<Rightarrow> folder_map \<Rightarrow> folder_map" where
  "filter_folders filters [] = []"
| "filter_folders filters ((key, fo) # m) =
     (let fs = filter (passes filters key) (files fo)
      in if length fs = 0 then filter_folders filters m
         else (key, fo\<lparr>files := fs\<rparr>) # filter_folders filters m)"

text \<open>
  \<open>filter\<close> (the constant \<open>w\<close> that it computes from the workspace is not used). The
  baseline \<open>o\<close> is \<open>null\<close> (\<open>None\<close>) or another \<open>Stats\<close>.
\<close>

definition filter_stats :: "stats \<Rightarrow> only_with \<Rightarrow> only_between \<Rightarrow> stats option \<Rightarrow> stats" where
  "filter_stats s onlyWith onlyBetween ob =
     (let filters = filters_of onlyWith onlyBetween ob
      in if length filters = 0 then s
         else s\<lparr>folders := filter_folders filters (folders s)\<rparr>)"

subsection \<open>\<open>checkThreshold\<close>\<close>












section \<open>Reading a folder map\<close>

text \<open>The files that the map holds under a folder key, in their order.\<close>

definition folder_files :: "folder_map \<Rightarrow> string \<Rightarrow> file_record list" where
  "folder_files m k = (case Map_get m k of None \<Rightarrow> [] | Some fo \<Rightarrow> files fo)"

text \<open>
  The record of one input file: its display name, and the metrics that
  \<open>createFileMetrics\<close> builds from its \<open>metrics\<close> element and its line records; there
  is none for a file without a name or without metrics, or whose line records make
  \<open>createFileMetrics\<close> throw.
\<close>

definition record_of :: "file_xml \<Rightarrow> file_record option" where
  "record_of f =
     (case file_xml.name f of
        None \<Rightarrow> None
      | Some n \<Rightarrow>
          (case file_xml.metrics f of
             None \<Rightarrow> None
           | Some m \<Rightarrow>
               (case createFileMetrics m (file_xml.line f) of
                  Inl e \<Rightarrow> None
                | Inr fm \<Rightarrow> Some \<lparr>file_record.name = extractFileNameFromPath n, metrics = fm\<rparr>)))"

text \<open>The input files whose folder is \<open>k\<close>, in the order of the input.\<close>

definition files_in_folder :: "string \<Rightarrow> (file_xml \<times> string) list \<Rightarrow> file_xml list" where
  "files_in_folder k fds = map fst (filter (\<lambda>fd. snd fd = k) fds)"

section \<open>Reading the metrics by their key\<close>




section \<open>Maximal ranges of lines\<close>

text \<open>
  The status of a line record (\<open>100\<close> when its count is positive, else \<open>0\<close>), the
  numbers of the line records, and the numbers of those of one status, in the order
  of the records.
\<close>

definition line_status :: "line_attrs \<Rightarrow> nat" where
  "line_status a = (if js_gt (num_of_int (parseInt (count a))) (Num 0) then 100 else 0)"

definition line_numbers :: "line_attrs list \<Rightarrow> int list" where
  "line_numbers ls = concat (map (\<lambda>a. case parseInt (num a) of None \<Rightarrow> [] | Some n \<Rightarrow> [n]) ls)"

definition lines_of_status :: "nat \<Rightarrow> line_attrs list \<Rightarrow> int list" where
  "lines_of_status s ls = line_numbers (filter (\<lambda>a. line_status a = s) ls)"

text \<open>The lines of a range, and a range that is well formed for a status.\<close>

definition range_lines :: "range \<Rightarrow> int list" where
  "range_lines r =
     (case range_start r of
        None \<Rightarrow> []
      | Some a \<Rightarrow> (case range_end r of None \<Rightarrow> [] | Some b \<Rightarrow> [a..b]))"

definition range_ok :: "nat \<Rightarrow> range \<Rightarrow> bool" where
  "range_ok s r =
     (range.coverage r = s \<and>
      (case range_start r of
         None \<Rightarrow> False
       | Some a \<Rightarrow> (case range_end r of None \<Rightarrow> False | Some b \<Rightarrow> a \<le> b)))"

text \<open>Two ranges that follow each other with at least one line between them.\<close>

definition apart :: "range \<Rightarrow> range \<Rightarrow> bool" where
  "apart r r' =
     (case range_end r of
        None \<Rightarrow> False
      | Some b \<Rightarrow> (case range_start r' of None \<Rightarrow> False | Some c \<Rightarrow> b + 1 < c))"

fun separated :: "range list \<Rightarrow> bool" where
  "separated [] = True"
| "separated [r] = True"
| "separated (r # r' # rs) = (apart r r' \<and> separated (r' # rs))"

text \<open>
  The ranges \<open>rs\<close> are the maximal contiguous ranges of the ascending lines \<open>ns\<close>, all
  of the status \<open>s\<close>: they cover exactly these lines, in ascending order, and no two
  of them touch.
\<close>

definition maximal_ranges :: "nat \<Rightarrow> int list \<Rightarrow> range list \<Rightarrow> bool" where
  "maximal_ranges s ns rs =
     (list_all (range_ok s) rs \<and> concat (map range_lines rs) = ns \<and> separated rs)"

text \<open>The step of the loop on the ranges of one status, for a line number that parses.\<close>

definition extend_ranges :: "range list \<Rightarrow> int \<Rightarrow> nat \<Rightarrow> range list" where
  "extend_ranges rs n s =
     (if extends_last rs (Some n)
      then butlast rs @ [(last rs)\<lparr>range_end := Some n\<rparr>]
      else rs @ [\<lparr>range_start = Some n, range_end = Some n, coverage = s\<rparr>])"

text \<open>The ranges that \<open>lineGroups\<close> holds for a status.\<close>

definition group_ranges :: "line_groups \<Rightarrow> nat \<Rightarrow> range list" where
  "group_ranges g s = (case group_get g s of None \<Rightarrow> [] | Some rs \<Rightarrow> rs)"

text \<open>
  What the loop keeps for every status: the ranges are the maximal ranges of the lines
  seen so far, and the last range ends at the last of these lines.
\<close>

definition tracks :: "nat \<Rightarrow> int list \<Rightarrow> range list \<Rightarrow> bool" where
  "tracks s ns rs =
     (maximal_ranges s ns rs \<and>
      (if ns = [] then rs = [] else rs \<noteq> [] \<and> range_end (last rs) = Some (last ns)))"

text \<open>
  What the loop of \<open>createFileMetrics\<close> keeps, after the line records \<open>pre\<close>: for every
  status the ranges of its group track its lines, and the keys of \<open>lineGroups\<close> are
  distinct and among \<open>0\<close> and \<open>100\<close>.
\<close>

definition groups_track :: "line_groups \<Rightarrow> line_attrs list \<Rightarrow> bool" where
  "groups_track g pre =
     ((\<forall>s. tracks s (lines_of_status s pre) (group_ranges g s))
      \<and> set (map fst g) \<subseteq> {0, 100} \<and> distinct (map fst g))"

section \<open>Example inputs\<close>






text \<open>
  A project of 100 statements with the line fraction \<open>p\<close> (the double nearest to it),
  without methods and branches, whose one file \<open>src/a.ts\<close> has the same metrics.
\<close>

definition stats_of_fraction :: "rat \<Rightarrow> stats" where
  "stats_of_fraction p =
     \<lparr>total =
        \<lparr>lines = \<lparr>coverage.total = Num 100, covered = Num (fl (p * 100)), percentual = Num (fl p)\<rparr>,
         stats_metrics.methods = \<lparr>coverage.total = Num 0, covered = Num 0, percentual = Num 1\<rparr>,
         branches = \<lparr>coverage.total = Num 0, covered = Num 0, percentual = Num 1\<rparr>\<rparr>,
      folders =
        [(''src'',
          \<lparr>folder.name = ''src'',
           files =
             [\<lparr>file_record.name = ''a.ts'',
               metrics =
                 \<lparr>lines = \<lparr>coverage.total = Num 100, covered = Num (fl (p * 100)), percentual = Num (fl p)\<rparr>,
                  stats_metrics.methods = \<lparr>coverage.total = Num 0, covered = Num 0, percentual = Num 1\<rparr>,
                  branches = \<lparr>coverage.total = Num 0, covered = Num 0, percentual = Num 1\<rparr>,
                  lineCoverage = [], methodCoverage = []\<rparr>\<rparr>]\<rparr>)]\<rparr>"

text \<open>No predicate of \<open>filter\<close> is active.\<close>

definition only_with_none :: only_with where
  "only_with_none = \<lparr>cover = False, coverableLines = False\<rparr>"

definition only_between_all :: only_between where
  "only_between_all = \<lparr>only_between.type = Some Lines, min_v = Num 0, max_v = Num 100, delta = Num 0\<rparr>"

text \<open>
  A report with one package: the attributes of a \<open>metrics\<close> element, a file without
  line records, and the document around the files of the package.
\<close>

definition metrics_of :: "string \<Rightarrow> string \<Rightarrow> string \<Rightarrow> string \<Rightarrow> metrics_attrs" where
  "metrics_of s cs m cm =
     \<lparr>metrics_attrs.statements = Some s, coveredstatements = Some cs,
      methods = Some m, coveredmethods = Some cm,
      conditionals = Some ''0'', coveredconditionals = Some ''0''\<rparr>"

definition file_of :: "string \<Rightarrow> metrics_attrs \<Rightarrow> file_xml" where
  "file_of n m = \<lparr>file_xml.name = Some n, path = None, metrics = Some m, line = []\<rparr>"

definition document_of :: "file_xml list \<Rightarrow> metrics_attrs \<Rightarrow> clover_xml" where
  "document_of fs m =
     \<lparr>clover_xml.coverage =
        Some \<lparr>project =
          Some \<lparr>project_xml.file = [], package = [\<lparr>package_xml.file = fs\<rparr>], metrics = Some m\<rparr>\<rparr>\<rparr>"

text \<open>A reader that accepts every text and returns the given document.\<close>

definition reader_of :: "clover_xml \<Rightarrow> xml_reader" where
  "reader_of d = (\<lambda>str. Some d)"

text \<open>
  One file \<open>/ws/src/a.ts\<close> with 100 statements, 40 of them covered, and 20 methods, 10
  of them covered; the change set touches its lines 1 to 10.
\<close>

definition a_ts :: file_xml where
  "a_ts = file_of ''/ws/src/a.ts'' (metrics_of ''100'' ''40'' ''20'' ''10'')"

definition report_a :: clover_xml where
  "report_a = document_of [a_ts] (metrics_of ''100'' ''40'' ''20'' ''10'')"


text \<open>
  One file \<open>/ws/src/c.ts\<close> with 22 statements, 11 of them covered, and no methods; the
  change set touches its lines 1 to 15.
\<close>

definition c_ts :: file_xml where
  "c_ts = file_of ''/ws/src/c.ts'' (metrics_of ''22'' ''11'' ''0'' ''0'')"

definition touched_c :: "pr_file list" where
  "touched_c = [PrObject (Some ''src/c.ts'') (Some [LineText ''1-15''])]"

text \<open>A change set that touches another file only, and one whose entry has no lines.\<close>

definition touched_b :: "pr_file list" where
  "touched_b = [PrObject (Some ''src/b.ts'') (Some [LineText ''1-10''])]"

definition touched_b_no_lines :: "pr_file list" where
  "touched_b_no_lines = [PrObject (Some ''src/b.ts'') None]"

text \<open>
  A file whose attribute \<open>name\<close> is \<open>index.ts\<close> and whose attribute \<open>path\<close> is
  \<open>/ws/src/html/index.ts\<close>, its report, and a change set that touches the lines 1 to
  10 of another file of that name, \<open>src/chart/index.ts\<close>.
\<close>

definition index_ts :: file_xml where
  "index_ts =
     \<lparr>file_xml.name = Some ''index.ts'', path = Some ''/ws/src/html/index.ts'',
      metrics = Some (metrics_of ''100'' ''40'' ''20'' ''10''), line = []\<rparr>"

definition report_index :: clover_xml where
  "report_index = document_of [index_ts] (metrics_of ''100'' ''40'' ''20'' ''10'')"

definition touched_chart :: "pr_file list" where
  "touched_chart = [PrObject (Some ''src/chart/index.ts'') (Some [LineText ''1-10''])]"

text \<open>
  A second entry of the report for the same path \<open>/ws/src/a.ts\<close>, with 50 statements, 25
  of them covered, and the report that lists both entries.
\<close>

definition a_ts_later :: file_xml where
  "a_ts_later = file_of ''/ws/src/a.ts'' (metrics_of ''50'' ''25'' ''20'' ''10'')"

definition report_twice :: clover_xml where
  "report_twice = document_of [a_ts, a_ts_later] (metrics_of ''150'' ''65'' ''40'' ''20'')"

text \<open>The records that ingestion builds for the two entries, and a folder of such records.\<close>

definition a_ts_record :: file_record where
  "a_ts_record =
     \<lparr>file_record.name = ''a.ts'',
      metrics =
        \<lparr>lines = \<lparr>coverage.total = Num 100, covered = Num 40, percentual = Num (fl (2 / 5))\<rparr>,
         stats_metrics.methods = \<lparr>coverage.total = Num 20, covered = Num 10, percentual = Num (1 / 2)\<rparr>,
         branches = \<lparr>coverage.total = Num 0, covered = Num 0, percentual = Num 1\<rparr>,
         lineCoverage = [], methodCoverage = []\<rparr>\<rparr>"

definition a_ts_later_record :: file_record where
  "a_ts_later_record =
     \<lparr>file_record.name = ''a.ts'',
      metrics =
        \<lparr>lines = \<lparr>coverage.total = Num 50, covered = Num 25, percentual = Num (1 / 2)\<rparr>,
         stats_metrics.methods = \<lparr>coverage.total = Num 20, covered = Num 10, percentual = Num (1 / 2)\<rparr>,
         branches = \<lparr>coverage.total = Num 0, covered = Num 0, percentual = Num 1\<rparr>,
         lineCoverage = [], methodCoverage = []\<rparr>\<rparr>"

definition folder_ws_src :: "file_record list \<Rightarrow> folder_map" where
  "folder_ws_src fs = [(''/ws/src'', \<lparr>folder.name = ''/ws/src'', files = fs\<rparr>)]"










text \<open>
  Six statement lines in ascending order: the lines 1, 2, 3, 5 and 6 were hit, the
  line 4 was not.
\<close>

definition line_of :: "string \<Rightarrow> string \<Rightarrow> line_attrs" where
  "line_of n c = \<lparr>num = Some n, count = Some c, line_attrs.type = Some ''stmt'', name = None\<rparr>"

definition six_lines :: "line_attrs list" where
  "six_lines =
     [line_of ''1'' ''1'', line_of ''2'' ''1'', line_of ''3'' ''2'',
      line_of ''4'' ''0'', line_of ''5'' ''1'', line_of ''6'' ''3'']"

definition range_of :: "int \<Rightarrow> int \<Rightarrow> nat \<Rightarrow> range" where
  "range_of a b s = \<lparr>range_start = Some a, range_end = Some b, coverage = s\<rparr>"

text \<open>
  The record of a file \<open>a.ts\<close> of 100 statements with the line fraction \<open>p\<close> (the double
  nearest to it), as \<open>stats_of_fraction\<close> holds it in the folder \<open>src\<close>.
\<close>

definition file_with_fraction :: "rat \<Rightarrow> file_record" where
  "file_with_fraction p =
     \<lparr>file_record.name = ''a.ts'',
      metrics =
        \<lparr>lines = \<lparr>coverage.total = Num 100, covered = Num (fl (p * 100)), percentual = Num (fl p)\<rparr>,
         stats_metrics.methods = \<lparr>coverage.total = Num 0, covered = Num 0, percentual = Num 1\<rparr>,
         branches = \<lparr>coverage.total = Num 0, covered = Num 0, percentual = Num 1\<rparr>,
         lineCoverage = [], methodCoverage = []\<rparr>\<rparr>"

section \<open>Properties of the rounding to a double\<close>

lemma rhe_cases: "rhe m = \<lfloor>m\<rfloor> \<or> (rhe m = \<lfloor>m\<rfloor> + 1 \<and> of_int \<lfloor>m\<rfloor> < m)"
  by (auto simp: rhe_def Let_def)

lemma rhe_of_int [simp]: "rhe (of_int k) = k"
  by (simp add: rhe_def)

lemma rhe_nonneg: "0 \<le> m \<Longrightarrow> 0 \<le> rhe m"
  using rhe_cases[of m] by auto

lemma rhe_le_int:
  assumes "m \<le> of_int k"
  shows "rhe m \<le> k"
proof -
  from assms have f: "\<lfloor>m\<rfloor> \<le> k" by (simp add: floor_le_iff)
  from rhe_cases[of m] show ?thesis
  proof
    assume "rhe m = \<lfloor>m\<rfloor>"
    with f show ?thesis by simp
  next
    assume a: "rhe m = \<lfloor>m\<rfloor> + 1 \<and> of_int \<lfloor>m\<rfloor> < m"
    have "\<lfloor>m\<rfloor> \<noteq> k"
    proof
      assume "\<lfloor>m\<rfloor> = k"
      with a assms show False by simp
    qed
    with f a show ?thesis by simp
  qed
qed

lemma bexp_bounds:
  assumes "0 < x"
  shows "2 powi bexp x \<le> x \<and> x < 2 powi (bexp x + 1)"
proof (cases "1 \<le> x")
  case True
  then have p: "0 < \<lfloor>x\<rfloor>" by simp
  let ?b = "bitlen \<lfloor>x\<rfloor>"
  from bitlen_bounds[OF p] have lo: "2 ^ nat (?b - 1) \<le> \<lfloor>x\<rfloor>" and hi: "\<lfloor>x\<rfloor> < 2 ^ nat ?b"
    by simp_all
  from p have b1: "1 \<le> ?b" using bitlen_eq_zero_iff[of "\<lfloor>x\<rfloor>"] bitlen_nonneg[of "\<lfloor>x\<rfloor>"] by linarith
  have "(2::rat) powi (?b - 1) = of_int (2 ^ nat (?b - 1))"
    using b1 by (simp add: power_int_def)
  also have "\<dots> \<le> of_int \<lfloor>x\<rfloor>" using lo by (simp only: of_int_le_iff)
  also have "\<dots> \<le> x" by simp
  finally have l: "2 powi (?b - 1) \<le> x" .
  from hi have "\<lfloor>x\<rfloor> + 1 \<le> 2 ^ nat ?b" by simp
  then have "rat_of_int (\<lfloor>x\<rfloor> + 1) \<le> of_int (2 ^ nat ?b)" by (simp only: of_int_le_iff)
  moreover have "x < of_int (\<lfloor>x\<rfloor> + 1)" by linarith
  ultimately have "x < of_int (2 ^ nat ?b)" by linarith
  also have "\<dots> = 2 powi ?b" using b1 by (simp add: power_int_def)
  finally have h: "x < 2 powi ?b" .
  from l h True show ?thesis by (simp add: bexp_def)
next
  case False
  then have x1: "x < 1" by simp
  define y where "y = 1 / x"
  have y1: "1 < y" using assms x1 by (simp add: y_def)
  then have p: "0 < \<lfloor>y\<rfloor>" by simp
  let ?b = "bitlen \<lfloor>y\<rfloor>"
  define k where "k = ?b - 1"
  from bitlen_bounds[OF p] have lo: "2 ^ nat (?b - 1) \<le> \<lfloor>y\<rfloor>" and hi: "\<lfloor>y\<rfloor> < 2 ^ nat ?b"
    by simp_all
  from p have b1: "1 \<le> ?b" using bitlen_eq_zero_iff[of "\<lfloor>y\<rfloor>"] bitlen_nonneg[of "\<lfloor>y\<rfloor>"] by linarith
  then have k0: "0 \<le> k" by (simp add: k_def)
  have "(2::rat) powi k = of_int (2 ^ nat k)"
    using k0 by (simp add: power_int_def)
  also have "\<dots> \<le> of_int \<lfloor>y\<rfloor>" using lo by (simp only: of_int_le_iff k_def)
  also have "\<dots> \<le> y" by simp
  finally have l: "2 powi k \<le> y" .
  from hi have "\<lfloor>y\<rfloor> + 1 \<le> 2 ^ nat ?b" by simp
  then have "rat_of_int (\<lfloor>y\<rfloor> + 1) \<le> of_int (2 ^ nat ?b)" by (simp only: of_int_le_iff)
  moreover have "y < of_int (\<lfloor>y\<rfloor> + 1)" by linarith
  ultimately have "y < of_int (2 ^ nat ?b)" by linarith
  also have "\<dots> = 2 powi (k + 1)" using b1 by (simp add: power_int_def k_def)
  finally have h: "y < 2 powi (k + 1)" .
  have pk: "(0::rat) < 2 powi k" and pk1: "(0::rat) < 2 powi (k + 1)" by simp_all
  have xu: "x \<le> 2 powi (- k)"
  proof -
    have "x * 2 powi k \<le> x * y" using l assms by (simp add: mult_left_mono)
    also have "x * y = 1" using assms by (simp add: y_def)
    finally have "x * 2 powi k \<le> 1" .
    then have "x \<le> 1 / 2 powi k" using pk by (simp add: pos_le_divide_eq)
    then show ?thesis by (simp add: power_int_minus inverse_eq_divide)
  qed
  have xl: "2 powi (- k - 1) < x"
  proof -
    have "x * y < x * 2 powi (k + 1)" using h assms by (simp add: mult_strict_left_mono)
    moreover have "x * y = 1" using assms by (simp add: y_def)
    ultimately have "1 < x * 2 powi (k + 1)" by simp
    then have "1 / 2 powi (k + 1) < x" using pk1 by (simp add: pos_divide_less_eq)
    moreover have "(2::rat) powi (- k - 1) = 1 / 2 powi (k + 1)"
      using power_int_minus[of "2::rat" "k + 1"] by (simp add: inverse_eq_divide)
    ultimately show ?thesis by simp
  qed
  have be: "bexp x = (if x = 2 powi (- k) then - k else - k - 1)"
    using False by (simp add: bexp_def Let_def y_def k_def)
  show ?thesis
  proof (cases "x = 2 powi (- k)")
    case True
    have "(2::rat) powi (- k) < 2 powi (- k + 1)"
      by (rule power_int_strict_increasing) simp_all
    then have "x < 2 powi (- k + 1)" using True by simp
    moreover have "bexp x = - k" using be True by simp
    ultimately show ?thesis using True by simp
  next
    case F: False
    with xu have "x < 2 powi (- k)" by simp
    moreover have b: "bexp x = - k - 1" using be F by simp
    ultimately show ?thesis using xl by (simp add: b)
  qed
qed

lemma bexp_unique:
  assumes "0 < x" and "2 powi e \<le> x" and "x < 2 powi (e + 1)"
  shows "bexp x = e"
proof -
  from bexp_bounds[OF assms(1)] have l: "2 powi bexp x \<le> x" and h: "x < 2 powi (bexp x + 1)"
    by simp_all
  have "(2::rat) powi e < 2 powi (bexp x + 1)" using assms(2) h by simp
  then have a: "e < bexp x + 1"
    by (metis linorder_not_less one_le_numeral power_int_increasing)
  have "(2::rat) powi bexp x < 2 powi (e + 1)" using assms(3) l by simp
  then have b: "bexp x < e + 1"
    by (metis linorder_not_less one_le_numeral power_int_increasing)
  from a b show ?thesis by simp
qed


lemma fl_zero [simp]: "fl 0 = 0"
  by (simp add: fl_def)

lemma fl_neg: "fl (- x) = - fl x"
  by (simp add: fl_def Let_def sgn_minus)

lemma fl_pos_eq:
  assumes "0 < x" and "2 powi e \<le> x" and "x < 2 powi (e + 1)" and "- 1022 \<le> e"
  shows "fl x = of_int (rhe (x / 2 powi (e - 52))) * 2 powi (e - 52)"
proof -
  have "bexp x = e" using assms(1-3) by (rule bexp_unique)
  then show ?thesis using assms(1,4) by (simp add: fl_def Let_def max_def)
qed

lemma fl_nonneg:
  assumes "0 \<le> x"
  shows "0 \<le> fl x"
proof (cases "x = 0")
  case True
  then show ?thesis by simp
next
  case False
  with assms have p: "0 < x" by simp
  let ?u = "(2::rat) powi (max (bexp \<bar>x\<bar>) (- 1022) - 52)"
  have u: "0 < ?u" by simp
  then have "0 \<le> x / ?u" using p by simp
  then have "0 \<le> rhe (x / ?u)" by (rule rhe_nonneg)
  then have "0 \<le> rat_of_int (rhe (x / ?u)) * ?u" using u by simp
  then show ?thesis using p by (simp add: fl_def Let_def)
qed

lemma bexp_le_zero:
  assumes "0 < x" and "x \<le> 1"
  shows "bexp x \<le> 0"
proof (rule ccontr)
  assume "\<not> bexp x \<le> 0"
  then have "1 \<le> bexp x" by simp
  then have "(2::rat) powi 1 \<le> 2 powi bexp x" by (intro power_int_increasing) simp_all
  moreover from bexp_bounds[OF assms(1)] have "2 powi bexp x \<le> x" by simp
  ultimately show False using assms(2) by simp
qed

lemma fl_le_one:
  assumes "0 \<le> x" and "x \<le> 1"
  shows "fl x \<le> 1"
proof (cases "x = 0")
  case True
  then show ?thesis by simp
next
  case False
  with assms have p: "0 < x" by simp
  define e where "e = max (bexp \<bar>x\<bar>) (- 1022)"
  have e0: "e \<le> 0" using bexp_le_zero[OF p assms(2)] p by (simp add: e_def)
  define K where "K = (2::int) ^ nat (52 - e)"
  have Ku: "rat_of_int K * 2 powi (e - 52) = 1"
  proof -
    have "rat_of_int K = 2 powi (52 - e)" using e0 by (simp add: K_def power_int_def)
    moreover have "(2::rat) powi (52 - e) * 2 powi (e - 52) = 2 powi ((52 - e) + (e - 52))"
      by (rule power_int_add[symmetric]) simp
    ultimately show ?thesis by simp
  qed
  have u: "(0::rat) < 2 powi (e - 52)" by simp
  have "x / 2 powi (e - 52) \<le> 1 / 2 powi (e - 52)" using assms(2) u by (simp add: divide_right_mono)
  also have "1 / 2 powi (e - 52) = rat_of_int K" using Ku u by (simp add: field_simps)
  finally have "rhe (x / 2 powi (e - 52)) \<le> K" by (rule rhe_le_int)
  then have "rat_of_int (rhe (x / 2 powi (e - 52))) \<le> rat_of_int K" by (simp only: of_int_le_iff)
  then have "rat_of_int (rhe (x / 2 powi (e - 52))) * 2 powi (e - 52) \<le> rat_of_int K * 2 powi (e - 52)"
    using u by (simp add: mult_right_mono)
  then have "rat_of_int (rhe (x / 2 powi (e - 52))) * 2 powi (e - 52) \<le> 1" using Ku by simp
  then show ?thesis using p by (simp add: fl_def Let_def e_def)
qed

lemma fl_int_pos:
  assumes "0 < i" and "i < 2 ^ 53"
  shows "fl (of_int i) = of_int i"
proof -
  have p: "(0::rat) < of_int i" using assms(1) by simp
  define e where "e = bexp (of_int i)"
  from bexp_bounds[OF p] have l: "2 powi e \<le> rat_of_int i" and h: "rat_of_int i < 2 powi (e + 1)"
    by (simp_all add: e_def)
  have e52: "e \<le> 52"
  proof (rule ccontr)
    assume "\<not> e \<le> 52"
    then have "53 \<le> e" by simp
    then have "(2::rat) powi 53 \<le> 2 powi e" by (intro power_int_increasing) simp_all
    with l have "(2::rat) powi 53 \<le> of_int i" by simp
    moreover have "rat_of_int i < of_int (2 ^ 53)" using assms(2) by (simp only: of_int_less_iff)
    ultimately show False by simp
  qed
  have e0: "0 \<le> e"
  proof (rule ccontr)
    assume "\<not> 0 \<le> e"
    then have "e + 1 \<le> 0" by simp
    then have "(2::rat) powi (e + 1) \<le> 2 powi 0" by (intro power_int_increasing) simp_all
    with h have "rat_of_int i < 1" by simp
    with assms(1) show False by simp
  qed
  define K where "K = (2::int) ^ nat (52 - e)"
  have Ku: "rat_of_int K * 2 powi (e - 52) = 1"
  proof -
    have "rat_of_int K = 2 powi (52 - e)" using e52 by (simp add: K_def power_int_def)
    moreover have "(2::rat) powi (52 - e) * 2 powi (e - 52) = 2 powi ((52 - e) + (e - 52))"
      by (rule power_int_add[symmetric]) simp
    ultimately show ?thesis by simp
  qed
  have u: "(0::rat) < 2 powi (e - 52)" by simp
  have d: "rat_of_int i / 2 powi (e - 52) = of_int (i * K)"
    using Ku u by (simp add: field_simps)
  have "fl (of_int i) = of_int (rhe (of_int i / 2 powi (e - 52))) * 2 powi (e - 52)"
    using p l h e0 by (intro fl_pos_eq) simp_all
  also have "\<dots> = of_int (i * K) * 2 powi (e - 52)" by (simp only: d rhe_of_int)
  also have "\<dots> = of_int i * (rat_of_int K * 2 powi (e - 52))" by simp
  also have "\<dots> = of_int i" by (simp only: Ku mult_1_right)
  finally show ?thesis .
qed

lemma fl_int:
  assumes "\<bar>i\<bar> < 2 ^ 53"
  shows "fl (of_int i) = of_int i"
proof (cases "0 < i")
  case True
  with assms show ?thesis by (simp add: fl_int_pos)
next
  case False
  show ?thesis
  proof (cases "i = 0")
    case True
    then show ?thesis by simp
  next
    case F: False
    with False assms have "0 < - i" "- i < 2 ^ 53" by simp_all
    then have "fl (of_int (- i)) = of_int (- i)" by (rule fl_int_pos)
    then show ?thesis using fl_neg[of "of_int i"] by simp
  qed
qed

lemma fl_numeral [simp]: "(numeral n :: int) < 2 ^ 53 \<Longrightarrow> fl (numeral n) = numeral n"
  using fl_int[of "numeral n"] by simp

lemma fl_one [simp]: "fl 1 = 1"
  using fl_int[of 1] by simp

lemma floor_numeral_div:
  "\<lfloor>(numeral a :: rat) / numeral b\<rfloor> = numeral a div numeral b"
  using floor_divide_of_int_eq[of "numeral a" "numeral b", where ?'a = rat] by simp

text \<open>
  The facts that evaluate an operation on given doubles: the rounding at each binary
  exponent from \<open>-6\<close> to \<open>6\<close>.
\<close>

lemmas fl_exp = fl_pos_eq[where e = "- 6"] fl_pos_eq[where e = "- 5"] fl_pos_eq[where e = "- 4"]
  fl_pos_eq[where e = "- 3"] fl_pos_eq[where e = "- 2"] fl_pos_eq[where e = "- 1"]
  fl_pos_eq[where e = 0] fl_pos_eq[where e = 1] fl_pos_eq[where e = 2] fl_pos_eq[where e = 3]
  fl_pos_eq[where e = 4] fl_pos_eq[where e = 5] fl_pos_eq[where e = 6]

lemmas fl_eval = fl_exp fl_neg rhe_def Let_def floor_numeral_div

lemmas Coverage_eval = Coverage_def toFixed_val_def toFixed_n_def fl_eval

section \<open>Properties of the metric model\<close>

lemma toFixed_val_nonneg:
  assumes "0 \<le> x"
  shows "toFixed_val f x = of_int \<lfloor>x * 10 ^ f + 1 / 2\<rfloor> / 10 ^ f"
proof -
  from assms have "0 \<le> \<lfloor>x * 10 ^ f + 1 / 2\<rfloor>" by simp
  then have "rat_of_nat (nat \<lfloor>x * 10 ^ f + 1 / 2\<rfloor>) = of_int \<lfloor>x * 10 ^ f + 1 / 2\<rfloor>"
    by (metis of_nat_nat)
  with assms show ?thesis by (simp add: toFixed_val_def toFixed_n_def)
qed

lemma toFixed_val_unit:
  assumes "0 \<le> x" "x \<le> 1"
  shows "0 \<le> toFixed_val f x \<and> toFixed_val f x \<le> 1"
proof -
  have p: "(0::rat) < 10 ^ f" by simp
  have a: "0 \<le> \<lfloor>x * 10 ^ f + 1 / 2\<rfloor>" using assms by simp
  have "x * 10 ^ f \<le> 1 * 10 ^ f" using assms p by (intro mult_right_mono) simp_all
  then have "x * 10 ^ f + 1 / 2 < 10 ^ f + 1" by linarith
  then have "x * 10 ^ f + 1 / 2 < of_int (10 ^ f + 1)" by simp
  then have "\<lfloor>x * 10 ^ f + 1 / 2\<rfloor> < 10 ^ f + 1" by (simp only: floor_less_iff)
  then have b: "\<lfloor>x * 10 ^ f + 1 / 2\<rfloor> \<le> 10 ^ f" by simp
  have "rat_of_int \<lfloor>x * 10 ^ f + 1 / 2\<rfloor> \<le> of_int (10 ^ f)" using b by (simp only: of_int_le_iff)
  then have c: "rat_of_int \<lfloor>x * 10 ^ f + 1 / 2\<rfloor> \<le> 10 ^ f" by simp
  show ?thesis using a c p by (simp add: toFixed_val_nonneg[OF assms(1)] divide_le_eq)
qed

text \<open>The doubles nearest to some fractions, and the four decimals of \<open>3 / 160\<close>.\<close>

lemma fl_1_3: "fl (1 / 3) = 6004799503160661 / 18014398509481984"
  by (simp add: fl_pos_eq[where e = "- 2"] rhe_def Let_def floor_numeral_div)

lemma fl_3_160: "fl (3 / 160) = 5404319552844595 / 288230376151711744"
  by (simp add: fl_pos_eq[where e = "- 6"] rhe_def Let_def floor_numeral_div)

lemma Number_160: "Number (JStr ''160'') = Num 160"
  by (simp add: Number_str_def trim_def is_space_def unsigned_decimal_def is_digit_def
      digits_val_def digit_val_def)

lemma Number_3: "Number (JStr ''3'') = Num 3"
  by (simp add: Number_str_def trim_def is_space_def unsigned_decimal_def is_digit_def
      digits_val_def digit_val_def)

lemma Number_1: "Number (JStr ''1'') = Num 1"
  by (simp add: Number_str_def trim_def is_space_def unsigned_decimal_def is_digit_def
      digits_val_def digit_val_def)

text \<open>
  Claim C2, as amended. For counts \<open>total\<close> and \<open>covered\<close> that are natural numbers
  (given as numbers or as the decimal strings of the report), the fraction of
  \<open>new Coverage(total, covered)\<close> is \<open>1\<close> when \<open>total\<close> is \<open>0\<close>; otherwise it is the
  double \<open>covered / total\<close>, written with four decimals (the nearest, of the exact
  value of that double) and read back as a double. It lies in the unit interval when
  \<open>covered \<le> total\<close>, and \<open>Coverage(0, 0)\<close> has the fraction \<open>1\<close>.
\<close>

theorem Coverage_fraction:
  "Number t = Num (of_nat tn) \<and> Number c = Num (of_nat cn) \<longrightarrow>
     percentual (Coverage t c) =
       (if tn = 0 then Num 1
        else Num (fl (of_int \<lfloor>fl (of_nat cn / of_nat tn) * 10000 + 1 / 2\<rfloor> / 10000)))
     \<and> (cn \<le> tn \<longrightarrow> in_unit (percentual (Coverage t c)))
     \<and> percentual (Coverage (JNum (Num 0)) (JNum (Num 0))) = Num 1"
proof (intro impI, elim conjE)
  assume t: "Number t = Num (of_nat tn)" and c: "Number c = Num (of_nat cn)"
  have "(0::rat) \<le> of_nat cn / of_nat tn" by simp
  then have q: "0 \<le> fl (of_nat cn / of_nat tn)" by (rule fl_nonneg)
  have f: "percentual (Coverage t c) =
       (if tn = 0 then Num 1
        else Num (fl (of_int \<lfloor>fl (of_nat cn / of_nat tn) * 10000 + 1 / 2\<rfloor> / 10000)))"
    by (simp add: Coverage_def t c toFixed_val_nonneg[OF q])
  have u: "in_unit (percentual (Coverage t c))" if le: "cn \<le> tn"
  proof (cases "tn = 0")
    case True
    then show ?thesis by (simp add: Coverage_def t c)
  next
    case False
    then have "(of_nat cn :: rat) / of_nat tn \<le> 1" using le by (simp add: divide_le_eq)
    then have "fl (of_nat cn / of_nat tn) \<le> 1" by (intro fl_le_one) simp_all
    from toFixed_val_unit[OF q this, of 4]
    have "0 \<le> fl (toFixed_val 4 (fl (of_nat cn / of_nat tn)))"
      and "fl (toFixed_val 4 (fl (of_nat cn / of_nat tn))) \<le> 1"
      by (simp_all add: fl_nonneg fl_le_one)
    with False show ?thesis by (simp add: Coverage_def t c)
  qed
  have z: "percentual (Coverage (JNum (Num 0)) (JNum (Num 0))) = Num 1"
    by (simp add: Coverage_def Let_def)
  show "percentual (Coverage t c) =
       (if tn = 0 then Num 1
        else Num (fl (of_int \<lfloor>fl (of_nat cn / of_nat tn) * 10000 + 1 / 2\<rfloor> / 10000)))
     \<and> (cn \<le> tn \<longrightarrow> in_unit (percentual (Coverage t c)))
     \<and> percentual (Coverage (JNum (Num 0)) (JNum (Num 0))) = Num 1"
  proof (intro conjI impI)
    show "percentual (Coverage t c) =
       (if tn = 0 then Num 1
        else Num (fl (of_int \<lfloor>fl (of_nat cn / of_nat tn) * 10000 + 1 / 2\<rfloor> / 10000)))"
      by (rule f)
    show "in_unit (percentual (Coverage t c))" if "cn \<le> tn"
      using that by (rule u)
    show "percentual (Coverage (JNum (Num 0)) (JNum (Num 0))) = Num 1"
      by (rule z)
  qed
qed

text \<open>
  Of three statements one is covered: the fraction is \<open>0.3333\<close>. Of 160 statements
  three are covered: the double \<open>3 / 160\<close> lies below \<open>0.01875\<close>, and the fraction is
  \<open>0.0187\<close>.
\<close>

theorem Coverage_fraction_witness:
  "Number (JStr ''3'') = Num (of_nat 3) \<and> Number (JStr ''1'') = Num (of_nat 1) \<and> (1::nat) \<le> 3
   \<and> percentual (Coverage (JStr ''3'') (JStr ''1'')) = Num (fl (3333 / 10000))
   \<and> in_unit (percentual (Coverage (JStr ''3'') (JStr ''1'')))
   \<and> Number (JStr ''160'') = Num (of_nat 160) \<and> Number (JStr ''3'') = Num (of_nat 3) \<and> (3::nat) \<le> 160
   \<and> percentual (Coverage (JStr ''160'') (JStr ''3'')) = Num (fl (187 / 10000))
   \<and> in_unit (percentual (Coverage (JStr ''160'') (JStr ''3'')))"
proof -
  have a: "Number (JStr ''3'') = Num (of_nat 3)" using Number_3 by simp
  have b: "Number (JStr ''1'') = Num (of_nat 1)" using Number_1 by simp
  have c: "Number (JStr ''160'') = Num (of_nat 160)" using Number_160 by simp
  have l1: "(1::nat) \<le> 3" and l2: "(3::nat) \<le> 160" by simp_all
  from Coverage_fraction[of "JStr ''3''" 3 "JStr ''1''" 1] a b l1
  have p1: "percentual (Coverage (JStr ''3'') (JStr ''1'')) =
       (if (3::nat) = 0 then Num 1
        else Num (fl (of_int \<lfloor>fl (of_nat 1 / of_nat 3) * 10000 + 1 / 2\<rfloor> / 10000)))"
    and u1: "in_unit (percentual (Coverage (JStr ''3'') (JStr ''1'')))"
    by blast+
  have v1: "(if (3::nat) = 0 then Num 1
        else Num (fl (of_int \<lfloor>fl (of_nat 1 / of_nat 3) * 10000 + 1 / 2\<rfloor> / 10000)))
      = Num (fl (3333 / 10000))"
    by (simp add: fl_1_3 floor_numeral_div)
  from Coverage_fraction[of "JStr ''160''" 160 "JStr ''3''" 3] a c l2
  have p2: "percentual (Coverage (JStr ''160'') (JStr ''3'')) =
       (if (160::nat) = 0 then Num 1
        else Num (fl (of_int \<lfloor>fl (of_nat 3 / of_nat 160) * 10000 + 1 / 2\<rfloor> / 10000)))"
    and u2: "in_unit (percentual (Coverage (JStr ''160'') (JStr ''3'')))"
    by blast+
  have v2: "(if (160::nat) = 0 then Num 1
        else Num (fl (of_int \<lfloor>fl (of_nat 3 / of_nat 160) * 10000 + 1 / 2\<rfloor> / 10000)))
      = Num (fl (187 / 10000))"
    by (simp add: fl_3_160 floor_numeral_div)
  from p1 v1 have w1: "percentual (Coverage (JStr ''3'') (JStr ''1'')) = Num (fl (3333 / 10000))"
    by (rule trans)
  from p2 v2 have w2: "percentual (Coverage (JStr ''160'') (JStr ''3'')) = Num (fl (187 / 10000))"
    by (rule trans)
  from a b c l1 l2 w1 w2 u1 u2 show ?thesis by blast
qed

text \<open>
  Claim C2 as stated fails: with \<open>total = 1\<close> and \<open>covered = 2\<close>, both non-negative, the
  fraction is \<open>2\<close>, outside the unit interval.
\<close>

theorem Coverage_fraction_counterexample:
  "percentual (Coverage (JNum (Num 1)) (JNum (Num 2))) = Num 2
   \<and> \<not> in_unit (percentual (Coverage (JNum (Num 1)) (JNum (Num 2))))"
  by (simp add: Coverage_def Let_def toFixed_val_def toFixed_n_def floor_numeral_div)

section \<open>Properties of \<open>filter\<close>\<close>

lemma filter_folders_idem: "filter_folders fs (filter_folders fs m) = filter_folders fs m"
proof (induction m)
  case Nil
  show ?case by simp
next
  case (Cons e m)
  obtain key fo where e: "e = (key, fo)" by (cases e)
  show ?case
  proof (cases "filter (passes fs key) (files fo) = []")
    case True
    then show ?thesis using Cons by (simp add: e)
  next
    case False
    then show ?thesis using Cons by (simp add: e Let_def)
  qed
qed

text \<open>
  Claim C8. Filtering is idempotent: for every stats, every configuration of the
  predicates and every baseline, filtering the filtered stats again with the same
  configuration and baseline changes nothing.
\<close>

theorem filter_stats_idempotent:
  "filter_stats (filter_stats s onlyWith onlyBetween ob) onlyWith onlyBetween ob
     = filter_stats s onlyWith onlyBetween ob"
  by (simp add: filter_stats_def Let_def filter_folders_idem)

text \<open>
  Claim C9. When no predicate is active (\<open>cover\<close> and \<open>coverableLines\<close> false,
  \<open>min \<le> 0\<close>, \<open>max \<ge> 100\<close>, and \<open>delta \<le> 0\<close> or no baseline), \<open>filter\<close> returns
  the stats it was given: total metrics, folders and files unchanged.
\<close>

theorem filter_stats_inactive:
  assumes "\<not> cover onlyWith" and "\<not> coverableLines onlyWith"
    and "js_le (min_v onlyBetween) (Num 0)" and "js_ge (max_v onlyBetween) (Num 100)"
    and "js_le (delta onlyBetween) (Num 0) \<or> ob = None"
  shows "filter_stats s onlyWith onlyBetween ob = s"
proof -
  have a: "\<not> js_gt (min_v onlyBetween) (Num 0)"
    using assms(3) by (cases "min_v onlyBetween") auto
  have b: "\<not> js_lt (max_v onlyBetween) (Num 100)"
    using assms(4) by (cases "max_v onlyBetween") auto
  have c: "ob = None \<or> \<not> js_gt (delta onlyBetween) (Num 0)"
    using assms(5) by (cases "delta onlyBetween") auto
  have "filters_of onlyWith onlyBetween ob = []"
    using assms(1,2) a b c by (auto simp: filters_of_def split: option.splits)
  then show ?thesis by (simp add: filter_stats_def)
qed

theorem filter_stats_inactive_witness:
  "\<not> cover only_with_none \<and> \<not> coverableLines only_with_none
   \<and> js_le (min_v only_between_all) (Num 0) \<and> js_ge (max_v only_between_all) (Num 100)
   \<and> (js_le (delta only_between_all) (Num 0) \<or> Some (stats_of_fraction (17 / 20)) = None)
   \<and> filter_stats (stats_of_fraction (4 / 5)) only_with_none only_between_all
        (Some (stats_of_fraction (17 / 20))) = stats_of_fraction (4 / 5)"
proof -
  have 1: "\<not> cover only_with_none" and 2: "\<not> coverableLines only_with_none"
    by (simp_all add: only_with_none_def)
  have 3: "js_le (min_v only_between_all) (Num 0)"
    and 4: "js_ge (max_v only_between_all) (Num 100)"
    and 5: "js_le (delta only_between_all) (Num 0) \<or> Some (stats_of_fraction (17 / 20)) = None"
    by (simp_all add: only_between_all_def)
  from filter_stats_inactive[OF 1 2 3 4 5, of "stats_of_fraction (4 / 5)"] 1 2 3 4 5
  show ?thesis by simp
qed

text \<open>
  The two percentage predicates compare doubles. With the range from 57 to 100 a file
  of the line fraction \<open>0.57\<close> is dropped, \<open>0.57 * 100\<close> being the double
  \<open>56.99999999999999\<close>; and with the delta 5 a file that went from \<open>0.55\<close> to \<open>0.5\<close> is
  kept, \<open>|0.5 - 0.55| * 100\<close> being the double \<open>5.000000000000004\<close>.
\<close>

lemma range_filter_57:
  "\<not> range_filter Lines (Num 57) (Num 100) (file_with_fraction (57 / 100)) ''src''"
  by (simp add: range_filter_def file_with_fraction_def between_def fl_eval)

lemma delta_filter_5:
  "Stats_get (stats_of_fraction (11 / 20)) ''src'' ''a.ts'' = Some (file_with_fraction (11 / 20))
   \<and> delta_filter Lines (Num 5) (stats_of_fraction (11 / 20)) (file_with_fraction (1 / 2)) ''src''"
  by (simp add: delta_filter_def Stats_get_def Map_get_def Folder_get_def stats_of_fraction_def
      file_with_fraction_def fl_eval)

section \<open>Properties of \<open>checkThreshold\<close>\<close>







subsection \<open>The percentages of the examples\<close>











lemma Coverage_zero:
  "Coverage (JNum (Num 0)) (JNum (Num 0)) = \<lparr>coverage.total = Num 0, covered = Num 0, percentual = Num 1\<rparr>"
  by (simp add: Coverage_def Let_def)




















section \<open>Properties of ingestion\<close>

text \<open>The definitions that evaluate the string functions on a literal.\<close>

lemmas str_eval = Number_str_def trim_def is_space_def unsigned_decimal_def is_digit_def
      digits_val_def digit_val_def startsWith_def endsWith_def workspace_prefix_def strip_prefix_def

subsection \<open>The example report\<close>

lemma Coverage_100_40:
  "Coverage (JStr ''100'') (JStr ''40'') =
     \<lparr>coverage.total = Num 100, covered = Num 40, percentual = Num (fl (2 / 5))\<rparr>"
  by (simp add: Coverage_eval str_eval)

lemma Coverage_20_10:
  "Coverage (JStr ''20'') (JStr ''10'') =
     \<lparr>coverage.total = Num 20, covered = Num 10, percentual = Num (1 / 2)\<rparr>"
  by (simp add: Coverage_eval str_eval)

lemma Coverage_50_25:
  "Coverage (JStr ''50'') (JStr ''25'') =
     \<lparr>coverage.total = Num 50, covered = Num 25, percentual = Num (1 / 2)\<rparr>"
  by (simp add: Coverage_eval str_eval)

lemma Coverage_0_0:
  "Coverage (JStr ''0'') (JStr ''0'') = \<lparr>coverage.total = Num 0, covered = Num 0, percentual = Num 1\<rparr>"
  by (simp add: Coverage_def Let_def str_eval)

lemma metrics_a_ts:
  "createFileMetrics (metrics_of ''100'' ''40'' ''20'' ''10'') [] = Inr (file_record.metrics a_ts_record)"
  by (simp add: createFileMetrics_def metrics_of_def a_ts_record_def Coverage_100_40 Coverage_20_10
      Coverage_0_0 ranges_in_key_order_def Object_keys_def)

lemma metrics_a_ts_later:
  "createFileMetrics (metrics_of ''50'' ''25'' ''20'' ''10'') [] = Inr (file_record.metrics a_ts_later_record)"
  by (simp add: createFileMetrics_def metrics_of_def a_ts_later_record_def Coverage_50_25 Coverage_20_10
      Coverage_0_0 ranges_in_key_order_def Object_keys_def)

lemma folder_a_ts: "extractFolderFromPath ''/ws/src/a.ts'' = ''/ws/src''"
  by (simp add: extractFolderFromPath_def)

lemma name_a_ts: "extractFileNameFromPath ''/ws/src/a.ts'' = ''a.ts''"
  by (simp add: extractFileNameFromPath_def Let_def)

lemma a_ts_record_eq:
  "\<lparr>file_record.name = ''a.ts'', metrics = file_record.metrics a_ts_record\<rparr> = a_ts_record"
  by (simp add: a_ts_record_def)

lemma a_ts_later_record_eq:
  "\<lparr>file_record.name = ''a.ts'', metrics = file_record.metrics a_ts_later_record\<rparr> = a_ts_later_record"
  by (simp add: a_ts_later_record_def)

lemma record_of_a_ts: "record_of a_ts = Some a_ts_record"
  by (simp add: record_of_def a_ts_def file_of_def metrics_a_ts name_a_ts a_ts_record_eq)

lemma record_of_a_ts_later: "record_of a_ts_later = Some a_ts_later_record"
  by (simp add: record_of_def a_ts_later_def file_of_def metrics_a_ts_later name_a_ts
      a_ts_later_record_eq)

lemma step_a_ts_first: "group_step [] (a_ts, ''/ws/src'') = Inr (folder_ws_src [a_ts_record])"
  by (simp add: group_step_def Let_def a_ts_def file_of_def metrics_a_ts name_a_ts Map_has_def
      Map_get_def push_def folder_ws_src_def a_ts_record_eq)

lemma step_a_ts_second:
  "group_step (folder_ws_src [a_ts_record]) (a_ts_later, ''/ws/src'') =
     Inr (folder_ws_src [a_ts_record, a_ts_later_record])"
  by (simp add: group_step_def Let_def a_ts_later_def file_of_def metrics_a_ts_later name_a_ts
      Map_has_def Map_get_def push_def folder_ws_src_def a_ts_later_record_eq)


lemma folders_twice:
  "processFilesIntoFolders [a_ts, a_ts_later] = Inr (folder_ws_src [a_ts_record, a_ts_later_record])"
proof -
  have "extractFolderPaths (sortFilesByName (normalizeFileNames [a_ts, a_ts_later])) =
      Inr [(a_ts, ''/ws/src''), (a_ts_later, ''/ws/src'')]"
    by (simp add: normalizeFileNames_def sortFilesByName_def a_ts_def a_ts_later_def file_of_def
        folder_a_ts)
  then show ?thesis
    by (simp add: processFilesIntoFolders_def groupFilesByFolder_def step_a_ts_first step_a_ts_second)
qed

lemma no_files_folders: "processFilesIntoFolders [] = Inr []"
  by (simp add: processFilesIntoFolders_def normalizeFileNames_def sortFilesByName_def groupFilesByFolder_def)

lemma fromString_document:
  "fromString (reader_of (document_of fs m)) ws str [] =
     (case processFilesIntoFolders fs of
        Inl e \<Rightarrow> Inl e
      | Inr fm \<Rightarrow> Inr \<lparr>total = createTotalMetrics m, folders = fm\<rparr>)"
  by (simp add: fromString_def parseCloverXML_def reader_of_def document_of_def getAllFiles_def
      split: sum.splits)

subsection \<open>Counting the touched lines of the example\<close>

lemma workspace_ws: "workspace_prefix ''/ws'' = ''/ws/''"
  by (simp add: str_eval)

lemma strip_a_ts: "strip_prefix ''/ws/'' (file_xml.name a_ts) = Inr ''src/a.ts''"
  by (simp add: a_ts_def file_of_def str_eval)


lemma range_lines_1_10: "totalRangeLines (lineRanges [LineText ''1-10'']) = Num 10"
  by (simp add: totalRangeLines_def lineRanges_def List.map_filter_def str_eval)

lemma range_lines_1_15: "totalRangeLines (lineRanges [LineText ''1-15'']) = Num 15"
  by (simp add: totalRangeLines_def lineRanges_def List.map_filter_def str_eval)

lemma Number_attrs:
  "Number (attr (Some ''100'')) = Num 100" "Number (attr (Some ''40'')) = Num 40"
  "Number (or_zero (Some ''20'')) = Num 20" "Number (attr (Some ''10'')) = Num 10"
  "Number (or_zero (Some ''0'')) = Num 0" "Number (attr (Some ''0'')) = Num 0"
  "Number (attr (Some ''22'')) = Num 22" "Number (attr (Some ''11'')) = Num 11"
  by (simp_all add: str_eval)

lemma floor_half: "\<lfloor>(1::rat) / 2\<rfloor> = 0"
  by (rule floor_unique) simp_all

lemma count_ranges_a:
  "count_ranges zero_counters (metrics_of ''100'' ''40'' ''20'' ''10'') [LineText ''1-10''] =
     \<lparr>statements = CNum (Some 10), coveredStatements = CNum (Some 4),
      methods = CNum (Some 10), coveredMethods = CNum (Some 5),
      conditionals = CNum (Some 0), coveredConditionals = CNum (Some 0)\<rparr>"
  by (simp add: count_ranges_def range_lines_1_10 metrics_of_def Number_attrs
      proportion_def zero_counters_def fl_eval floor_half
      del: Number.simps attr.simps or_zero.simps)


lemma Coverage_10_4:
  "Coverage (JNum (Num 10)) (JNum (Num 4)) =
     \<lparr>coverage.total = Num 10, covered = Num 4, percentual = Num (fl (2 / 5))\<rparr>"
  by (simp add: Coverage_eval)

lemma Coverage_10_5:
  "Coverage (JNum (Num 10)) (JNum (Num 5)) =
     \<lparr>coverage.total = Num 10, covered = Num 5, percentual = Num (1 / 2)\<rparr>"
  by (simp add: Coverage_eval)

lemma counters_metrics_a:
  "counters_metrics \<lparr>statements = CNum (Some 10), coveredStatements = CNum (Some 4),
          methods = CNum (Some 10), coveredMethods = CNum (Some 5),
          conditionals = CNum (Some 0), coveredConditionals = CNum (Some 0)\<rparr> =
     \<lparr>lines = \<lparr>coverage.total = Num 10, covered = Num 4, percentual = Num (fl (2 / 5))\<rparr>,
      stats_metrics.methods = \<lparr>coverage.total = Num 10, covered = Num 5, percentual = Num (1 / 2)\<rparr>,
      branches = \<lparr>coverage.total = Num 0, covered = Num 0, percentual = Num 1\<rparr>\<rparr>"
  by (simp add: counters_metrics_def Coverage_10_4 Coverage_10_5 Coverage_zero)

subsection \<open>A change set that touches no file of the report\<close>

lemma filter_files_none:
  assumes "\<forall>f \<in> set fs. \<exists>fileName. strip_prefix w (file_xml.name f) = Inr fileName
             \<and> some_pr h fileName prs = Inr False"
  shows "filter_files w h prs fs = Inr []"
  using assms by (induction fs) auto

text \<open>The file \<open>index.ts\<close> of the folder \<open>src/html\<close>.\<close>

lemma strip_index_ts: "strip_prefix ''/ws/'' (file_xml.name index_ts) = Inr ''index.ts''"
  by (simp add: index_ts_def str_eval)

lemma find_touched_chart:
  "find (file_includes ''index.ts'') touched_chart =
     Some (PrObject (Some ''src/chart/index.ts'') (Some [LineText ''1-10'']))"
  by (simp add: touched_chart_def)

lemma count_index_ts:
  "count_file ''/ws/'' True touched_chart zero_counters index_ts =
     Inr \<lparr>statements = CNum (Some 10), coveredStatements = CNum (Some 4),
          methods = CNum (Some 10), coveredMethods = CNum (Some 5),
          conditionals = CNum (Some 0), coveredConditionals = CNum (Some 0)\<rparr>"
proof -
  have m: "file_xml.metrics index_ts = Some (metrics_of ''100'' ''40'' ''20'' ''10'')"
    by (simp add: index_ts_def)
  show ?thesis
    by (simp add: count_file_def strip_index_ts m find_touched_chart count_ranges_a)
qed

lemma normalized_index_ts:
  "normalizeFileNames [index_ts] = [index_ts\<lparr>file_xml.name := Some ''/ws/src/html/index.ts''\<rparr>]"
  by (simp add: normalizeFileNames_def index_ts_def)

lemma folder_index_ts: "extractFolderFromPath ''/ws/src/html/index.ts'' = ''/ws/src/html''"
  by (simp add: extractFolderFromPath_def)

lemma name_index_ts: "extractFileNameFromPath ''/ws/src/html/index.ts'' = ''index.ts''"
  by (simp add: extractFileNameFromPath_def Let_def)

lemma folders_index:
  "processFilesIntoFolders [index_ts] =
     Inr [(''/ws/src/html'',
           \<lparr>folder.name = ''/ws/src/html'',
            files = [\<lparr>file_record.name = ''index.ts'', metrics = file_record.metrics a_ts_record\<rparr>]\<rparr>)]"
proof -
  have "extractFolderPaths (sortFilesByName (normalizeFileNames [index_ts])) =
      Inr [(index_ts\<lparr>file_xml.name := Some ''/ws/src/html/index.ts''\<rparr>, ''/ws/src/html'')]"
    by (simp add: normalized_index_ts sortFilesByName_def folder_index_ts)
  moreover have "group_step [] (index_ts\<lparr>file_xml.name := Some ''/ws/src/html/index.ts''\<rparr>, ''/ws/src/html'') =
     Inr [(''/ws/src/html'',
           \<lparr>folder.name = ''/ws/src/html'',
            files = [\<lparr>file_record.name = ''index.ts'', metrics = file_record.metrics a_ts_record\<rparr>]\<rparr>)]"
    by (simp add: group_step_def Let_def index_ts_def metrics_a_ts name_index_ts Map_has_def
        Map_get_def push_def)
  ultimately show ?thesis
    by (simp add: processFilesIntoFolders_def groupFilesByFolder_def)
qed

text \<open>
  Claim C10, as amended. If the list of touched files is not empty and every entry
  can be asked (none makes the test throw), and the attribute \<open>name\<close> of no file of the
  report, without the workspace prefix, is included in an entry, then \<open>fromString\<close>
  returns a stats without folders whose total lines, methods and branches are each
  \<open>Coverage(0, 0)\<close>, so that every total fraction is \<open>1\<close>. The document is one that the
  reader accepts and whose project has its \<open>metrics\<close>.
\<close>

theorem fromString_no_match:
  assumes "xml2json str = Some doc" and "clover_xml.coverage doc = Some cv"
    and "project cv = Some p" and "project_xml.metrics p = Some m"
    and "getAllFiles (Some p) = Inr fs"
    and "prs \<noteq> []"
    and "\<forall>f \<in> set fs. \<exists>fileName.
           strip_prefix (workspace_prefix ws) (file_xml.name f) = Inr fileName
           \<and> some_pr (hasLineInfo prs) fileName prs = Inr False"
  shows "fromString xml2json ws str prs =
           Inr \<lparr>total = \<lparr>lines = Coverage (JNum (Num 0)) (JNum (Num 0)),
                          stats_metrics.methods = Coverage (JNum (Num 0)) (JNum (Num 0)),
                          branches = Coverage (JNum (Num 0)) (JNum (Num 0))\<rparr>,
                folders = []\<rparr>
         \<and> percentual (Coverage (JNum (Num 0)) (JNum (Num 0))) = Num 1"
proof -
  have k: "filter_files (workspace_prefix ws) (hasLineInfo prs) prs fs = Inr []"
    using assms(7) by (rule filter_files_none)
  have c: "counters_metrics zero_counters =
      \<lparr>lines = Coverage (JNum (Num 0)) (JNum (Num 0)),
       stats_metrics.methods = Coverage (JNum (Num 0)) (JNum (Num 0)),
       branches = Coverage (JNum (Num 0)) (JNum (Num 0))\<rparr>"
    by (simp add: counters_metrics_def zero_counters_def)
  have "fromString xml2json ws str prs =
           Inr \<lparr>total = \<lparr>lines = Coverage (JNum (Num 0)) (JNum (Num 0)),
                          stats_metrics.methods = Coverage (JNum (Num 0)) (JNum (Num 0)),
                          branches = Coverage (JNum (Num 0)) (JNum (Num 0))\<rparr>,
                folders = []\<rparr>"
    using assms(1-6) k c
    by (simp add: fromString_def parseCloverXML_def Let_def no_files_folders)
  then show ?thesis by (simp add: Coverage_zero)
qed

theorem fromString_no_match_witness:
  "reader_of report_a ''<coverage/>'' = Some report_a
   \<and> touched_b \<noteq> []
   \<and> strip_prefix (workspace_prefix ''/ws'') (file_xml.name a_ts) = Inr ''src/a.ts''
   \<and> some_pr (hasLineInfo touched_b) ''src/a.ts'' touched_b = Inr False
   \<and> fromString (reader_of report_a) ''/ws'' ''<coverage/>'' touched_b =
        Inr \<lparr>total = \<lparr>lines = \<lparr>coverage.total = Num 0, covered = Num 0, percentual = Num 1\<rparr>,
                       stats_metrics.methods = \<lparr>coverage.total = Num 0, covered = Num 0, percentual = Num 1\<rparr>,
                       branches = \<lparr>coverage.total = Num 0, covered = Num 0, percentual = Num 1\<rparr>\<rparr>,
             folders = []\<rparr>"
proof -
  have 1: "reader_of report_a ''<coverage/>'' = Some report_a" by (simp add: reader_of_def)
  have 2: "clover_xml.coverage report_a = Some \<lparr>project =
          Some \<lparr>project_xml.file = [], package = [\<lparr>package_xml.file = [a_ts]\<rparr>],
                metrics = Some (metrics_of ''100'' ''40'' ''20'' ''10'')\<rparr>\<rparr>"
    by (simp add: report_a_def document_of_def)
  have 3: "project \<lparr>project =
          Some \<lparr>project_xml.file = [], package = [\<lparr>package_xml.file = [a_ts]\<rparr>],
                metrics = Some (metrics_of ''100'' ''40'' ''20'' ''10'')\<rparr>\<rparr> =
          Some \<lparr>project_xml.file = [], package = [\<lparr>package_xml.file = [a_ts]\<rparr>],
                metrics = Some (metrics_of ''100'' ''40'' ''20'' ''10'')\<rparr>"
    by simp
  have 4: "project_xml.metrics \<lparr>project_xml.file = [], package = [\<lparr>package_xml.file = [a_ts]\<rparr>],
                metrics = Some (metrics_of ''100'' ''40'' ''20'' ''10'')\<rparr> =
           Some (metrics_of ''100'' ''40'' ''20'' ''10'')"
    by simp
  have 5: "getAllFiles (Some \<lparr>project_xml.file = [], package = [\<lparr>package_xml.file = [a_ts]\<rparr>],
                metrics = Some (metrics_of ''100'' ''40'' ''20'' ''10'')\<rparr>) = Inr [a_ts]"
    by (simp add: getAllFiles_def)
  have 6: "touched_b \<noteq> []" by (simp add: touched_b_def)
  have 7: "\<forall>f \<in> set [a_ts]. \<exists>fileName.
           strip_prefix (workspace_prefix ''/ws'') (file_xml.name f) = Inr fileName
           \<and> some_pr (hasLineInfo touched_b) fileName touched_b = Inr False"
    by (simp add: a_ts_def file_of_def str_eval touched_b_def hasLineInfo_def)
  have 8: "strip_prefix (workspace_prefix ''/ws'') (file_xml.name a_ts) = Inr ''src/a.ts''
      \<and> some_pr (hasLineInfo touched_b) ''src/a.ts'' touched_b = Inr False"
    by (simp add: a_ts_def file_of_def str_eval touched_b_def hasLineInfo_def)
  from fromString_no_match[where xml2json = "reader_of report_a" and str = "''<coverage/>''"
      and ws = "''/ws''", OF 1 2 3 4 5 6 7] 1 6 8
  show ?thesis
    by (simp add: Coverage_zero)
qed

text \<open>
  Claim C10 as stated fails. The files are filtered by their attribute \<open>name\<close>, before
  \<open>normalizeFileNames\<close> puts the attribute \<open>path\<close> in its place: the file whose path is
  \<open>/ws/src/html/index.ts\<close> and whose name is \<open>index.ts\<close> is retained for the touched file
  \<open>src/chart/index.ts\<close>, which does not include its path, and the stats has a folder.
  And for a list of touched files whose first entry has no lines, \<open>fromString\<close> throws
  a \<open>TypeError\<close>.
\<close>

theorem fromString_no_match_counterexample:
  "touched_chart = [PrObject (Some ''src/chart/index.ts'') (Some [LineText ''1-10''])]
   \<and> map file_xml.name (normalizeFileNames [index_ts]) = [Some ''/ws/src/html/index.ts'']
   \<and> strip_prefix (workspace_prefix ''/ws'') (Some ''/ws/src/html/index.ts'') = Inr ''src/html/index.ts''
   \<and> \<not> str_includes ''src/chart/index.ts'' ''src/html/index.ts''
   \<and> fromString (reader_of report_index) ''/ws'' ''<coverage/>'' touched_chart =
        Inr \<lparr>total =
               \<lparr>lines = \<lparr>coverage.total = Num 10, covered = Num 4, percentual = Num (fl (2 / 5))\<rparr>,
                stats_metrics.methods = \<lparr>coverage.total = Num 10, covered = Num 5, percentual = Num (1 / 2)\<rparr>,
                branches = \<lparr>coverage.total = Num 0, covered = Num 0, percentual = Num 1\<rparr>\<rparr>,
             folders =
               [(''/ws/src/html'',
                 \<lparr>folder.name = ''/ws/src/html'',
                  files = [\<lparr>file_record.name = ''index.ts'', metrics = file_record.metrics a_ts_record\<rparr>]\<rparr>)]\<rparr>
   \<and> touched_b_no_lines \<noteq> []
   \<and> fromString (reader_of report_a) ''/ws'' ''<coverage/>'' touched_b_no_lines = Inl TypeError"
proof -
  have 1: "touched_chart = [PrObject (Some ''src/chart/index.ts'') (Some [LineText ''1-10''])]"
    by (simp add: touched_chart_def)
  have 2: "map file_xml.name (normalizeFileNames [index_ts]) = [Some ''/ws/src/html/index.ts'']"
    by (simp add: normalized_index_ts)
  have 3: "strip_prefix (workspace_prefix ''/ws'') (Some ''/ws/src/html/index.ts'') = Inr ''src/html/index.ts''"
    by (simp add: str_eval)
  have 4: "\<not> str_includes ''src/chart/index.ts'' ''src/html/index.ts''"
    by simp
  have h: "hasLineInfo touched_chart" by (simp add: hasLineInfo_def touched_chart_def)
  have l: "touched_chart \<noteq> []" by (simp add: touched_chart_def)
  have k: "filter_files ''/ws/'' True touched_chart [index_ts] = Inr [index_ts]"
    by (simp add: strip_index_ts) (simp add: touched_chart_def)
  have c: "count_loop ''/ws/'' True touched_chart zero_counters [index_ts] =
     Inr \<lparr>statements = CNum (Some 10), coveredStatements = CNum (Some 4),
          methods = CNum (Some 10), coveredMethods = CNum (Some 5),
          conditionals = CNum (Some 0), coveredConditionals = CNum (Some 0)\<rparr>"
    by (simp add: count_index_ts)
  have 5: "fromString (reader_of report_index) ''/ws'' ''<coverage/>'' touched_chart =
        Inr \<lparr>total =
               \<lparr>lines = \<lparr>coverage.total = Num 10, covered = Num 4, percentual = Num (fl (2 / 5))\<rparr>,
                stats_metrics.methods = \<lparr>coverage.total = Num 10, covered = Num 5, percentual = Num (1 / 2)\<rparr>,
                branches = \<lparr>coverage.total = Num 0, covered = Num 0, percentual = Num 1\<rparr>\<rparr>,
             folders =
               [(''/ws/src/html'',
                 \<lparr>folder.name = ''/ws/src/html'',
                  files = [\<lparr>file_record.name = ''index.ts'', metrics = file_record.metrics a_ts_record\<rparr>]\<rparr>)]\<rparr>"
    by (simp add: fromString_def parseCloverXML_def reader_of_def report_index_def document_of_def
        getAllFiles_def workspace_ws h l k c counters_metrics_a folders_index Let_def
        del: filter_files.simps count_loop.simps)
  have 6: "touched_b_no_lines \<noteq> []" by (simp add: touched_b_no_lines_def)
  have n: "\<not> hasLineInfo touched_b_no_lines" by (simp add: hasLineInfo_def touched_b_no_lines_def)
  have e: "filter_files ''/ws/'' False touched_b_no_lines [a_ts] = Inl TypeError"
    by (simp add: strip_a_ts) (simp add: touched_b_no_lines_def)
  have 7: "fromString (reader_of report_a) ''/ws'' ''<coverage/>'' touched_b_no_lines = Inl TypeError"
    by (simp add: fromString_def parseCloverXML_def reader_of_def report_a_def document_of_def
        getAllFiles_def workspace_ws n 6 e Let_def
        del: filter_files.simps count_loop.simps)
  from 1 2 3 4 5 6 7 show ?thesis by blast
qed

subsection \<open>Failures of ingestion\<close>








subsection \<open>Change-set attribution\<close>





text \<open>
  The products are doubles: for 22 statements, 11 of them covered, and the lines 1 to
  15, the proportion is the double \<open>15 / 22\<close>, the product \<open>11 * proportion\<close> is the
  double \<open>7.499999999999999\<close>, and the file contributes 15 statements and 7 covered
  statements.
\<close>

lemma count_c_ts:
  "count_file ''/ws/'' True touched_c zero_counters c_ts =
     Inr \<lparr>statements = CNum (Some 15), coveredStatements = CNum (Some 7),
          methods = CNum (Some 0), coveredMethods = CNum (Some 0),
          conditionals = CNum (Some 0), coveredConditionals = CNum (Some 0)\<rparr>"
proof -
  have m: "file_xml.metrics c_ts = Some (metrics_of ''22'' ''11'' ''0'' ''0'')"
    by (simp add: c_ts_def file_of_def)
  have s: "strip_prefix ''/ws/'' (file_xml.name c_ts) = Inr ''src/c.ts''"
    by (simp add: c_ts_def file_of_def str_eval)
  have f: "find (file_includes ''src/c.ts'') touched_c =
      Some (PrObject (Some ''src/c.ts'') (Some [LineText ''1-15'']))"
    by (simp add: touched_c_def)
  have "count_ranges zero_counters (metrics_of ''22'' ''11'' ''0'' ''0'') [LineText ''1-15''] =
     \<lparr>statements = CNum (Some 15), coveredStatements = CNum (Some 7),
      methods = CNum (Some 0), coveredMethods = CNum (Some 0),
      conditionals = CNum (Some 0), coveredConditionals = CNum (Some 0)\<rparr>"
    by (simp add: count_ranges_def range_lines_1_15 metrics_of_def Number_attrs
        proportion_def zero_counters_def fl_eval floor_half
        del: Number.simps attr.simps or_zero.simps)
  then show ?thesis
    by (simp add: count_file_def s m f)
qed


subsection \<open>Grouping\<close>

lemma map_of_Map_set: "map_of (Map_set m k v) k' = (if k' = k then Some v else map_of m k')"
  by (induction m) auto

text \<open>One step of the loop appends the record of its file to the folder of the file.\<close>

lemma group_step_files:
  assumes "group_step m0 (f, fo) = Inr m1"
  shows "\<exists>r. record_of f = Some r
           \<and> (\<forall>k. folder_files m1 k = folder_files m0 k @ (if fo = k then [r] else []))"
proof -
  from assms obtain ma where ma: "file_xml.metrics f = Some ma"
    by (auto simp: group_step_def split: option.splits)
  let ?m1 = "if \<not> Map_has m0 fo then Map_set m0 fo \<lparr>folder.name = fo, files = []\<rparr> else m0"
  from assms ma obtain folderObj where fo: "Map_get ?m1 fo = Some folderObj"
    by (auto simp: group_step_def Let_def split: option.splits if_splits)
  from assms ma fo obtain fm where fm: "createFileMetrics ma (file_xml.line f) = Inr fm"
    by (auto simp: group_step_def Let_def split: option.splits if_splits sum.splits)
  from assms ma fo fm obtain n where n: "file_xml.name f = Some n"
    by (auto simp: group_step_def Let_def split: option.splits if_splits sum.splits)
  let ?r = "\<lparr>file_record.name = extractFileNameFromPath n, metrics = fm\<rparr>"
  from assms ma fo fm n have m1: "m1 = Map_set ?m1 fo (push folderObj ?r)"
    by (auto simp: group_step_def Let_def split: if_splits)
  have r: "record_of f = Some ?r"
    by (simp add: record_of_def n ma fm)
  have old: "folder_files ?m1 k = folder_files m0 k" for k
    by (auto simp: folder_files_def Map_get_def Map_has_def map_of_Map_set)
  have files: "files folderObj = folder_files m0 fo"
    using fo by (auto simp: folder_files_def Map_get_def Map_has_def map_of_Map_set split: if_splits)
  have "folder_files m1 k = folder_files m0 k @ (if fo = k then [?r] else [])" for k
  proof (cases "k = fo")
    case True
    then show ?thesis
      using files by (simp add: m1 folder_files_def Map_get_def map_of_Map_set push_def)
  next
    case False
    then have "folder_files m1 k = folder_files ?m1 k"
      by (simp add: m1 folder_files_def Map_get_def map_of_Map_set)
    with False old[of k] show ?thesis by simp
  qed
  with r show ?thesis by blast
qed

lemma group_loop_files:
  assumes "group_loop m0 fds = Inr m"
  shows "map Some (folder_files m k) =
           map Some (folder_files m0 k) @ map record_of (files_in_folder k fds)"
  using assms
proof (induction fds arbitrary: m0)
  case Nil
  then show ?case by (simp add: files_in_folder_def)
next
  case (Cons fd fds)
  obtain f fo where fd: "fd = (f, fo)" by (cases fd)
  from Cons.prems obtain m1 where s: "group_step m0 (f, fo) = Inr m1" and l: "group_loop m1 fds = Inr m"
    by (auto simp: fd split: sum.splits)
  from group_step_files[OF s] obtain r where r: "record_of f = Some r"
    and a: "folder_files m1 k = folder_files m0 k @ (if fo = k then [r] else [])"
    by blast
  from Cons.IH[OF l] a r show ?case
    by (simp add: fd files_in_folder_def)
qed

text \<open>
  Claim C5, as amended. Grouping is append-only: \<open>Folder.push\<close> appends, and nothing
  replaces a file of the same name. After \<open>groupFilesByFolder\<close> the sequence of every
  folder holds, for every input file of that folder and in the (sorted) order of the
  input, the record of that file: the first record is the record of the first input
  file of the folder, the second that of the second, and so on. So two input files
  with the same display name in the same folder are both kept, each with its own
  metrics, the later one behind the earlier one, and the names within a folder need
  not be distinct.
\<close>

theorem groupFilesByFolder_appends:
  assumes "groupFilesByFolder fds = Inr m"
  shows "map Some (folder_files m k) = map record_of (files_in_folder k fds)"
  using group_loop_files[of "[]" fds m k] assms
  by (simp add: groupFilesByFolder_def folder_files_def Map_get_def)

text \<open>
  The report lists \<open>/ws/src/a.ts\<close> twice, first with 40 of 100 statements covered, then
  with 25 of 50: the folder holds both records, the first before the second.
\<close>

theorem groupFilesByFolder_appends_witness:
  "groupFilesByFolder [(a_ts, ''/ws/src''), (a_ts_later, ''/ws/src'')] =
     Inr (folder_ws_src [a_ts_record, a_ts_later_record])
   \<and> files_in_folder ''/ws/src'' [(a_ts, ''/ws/src''), (a_ts_later, ''/ws/src'')] = [a_ts, a_ts_later]
   \<and> record_of a_ts = Some a_ts_record
   \<and> record_of a_ts_later = Some a_ts_later_record
   \<and> folder_files (folder_ws_src [a_ts_record, a_ts_later_record]) ''/ws/src'' =
       [a_ts_record, a_ts_later_record]
   \<and> file_record.name a_ts_record = file_record.name a_ts_later_record
   \<and> a_ts_record \<noteq> a_ts_later_record"
proof -
  have g: "groupFilesByFolder [(a_ts, ''/ws/src''), (a_ts_later, ''/ws/src'')] =
     Inr (folder_ws_src [a_ts_record, a_ts_later_record])"
    by (simp add: groupFilesByFolder_def step_a_ts_first step_a_ts_second)
  have i: "files_in_folder ''/ws/src'' [(a_ts, ''/ws/src''), (a_ts_later, ''/ws/src'')] = [a_ts, a_ts_later]"
    by (simp add: files_in_folder_def)
  from groupFilesByFolder_appends[OF g, of "''/ws/src''"]
  have "map Some (folder_files (folder_ws_src [a_ts_record, a_ts_later_record]) ''/ws/src'') =
      [Some a_ts_record, Some a_ts_later_record]"
    by (simp only: i list.map record_of_a_ts record_of_a_ts_later)
  then have f: "folder_files (folder_ws_src [a_ts_record, a_ts_later_record]) ''/ws/src'' =
       [a_ts_record, a_ts_later_record]"
    by (auto simp: map_eq_Cons_conv)
  have n: "file_record.name a_ts_record = file_record.name a_ts_later_record"
    by (simp add: a_ts_record_def a_ts_later_record_def)
  have d: "a_ts_record \<noteq> a_ts_later_record"
    by (simp add: a_ts_record_def a_ts_later_record_def)
  from g i record_of_a_ts record_of_a_ts_later f n d show ?thesis by blast
qed

text \<open>
  Claim C5 as stated fails: a report that lists \<open>/ws/src/a.ts\<close> twice, with different
  metrics, yields a folder with two files of the name \<open>a.ts\<close>; the earlier record is
  still there, in front of the later one.
\<close>

theorem duplicate_file_counterexample:
  "fromString (reader_of report_twice) ''/ws'' ''<coverage/>'' [] =
     Inr \<lparr>total = createTotalMetrics (metrics_of ''150'' ''65'' ''40'' ''20''),
          folders = folder_ws_src [a_ts_record, a_ts_later_record]\<rparr>
   \<and> map file_record.name [a_ts_record, a_ts_later_record] = [''a.ts'', ''a.ts'']
   \<and> a_ts_record \<noteq> a_ts_later_record
   \<and> folder_ws_src [a_ts_record, a_ts_later_record] \<noteq> folder_ws_src [a_ts_later_record]"
  by (simp add: report_twice_def fromString_document folders_twice a_ts_record_def
      a_ts_later_record_def folder_ws_src_def)

subsection \<open>Ranges of lines\<close>

lemma separated_snoc:
  "separated (rs @ [r]) = (separated rs \<and> (rs = [] \<or> apart (last rs) r))"
  by (induction rs rule: separated.induct) auto

lemma extends_last_snoc:
  "extends_last (bs @ [l]) (Some n) = (range_end l = Some (n - 1))"
  by (cases bs) (auto simp: extends_last_def split: option.splits)

lemma extend_tracks:
  assumes t: "tracks s ns rs" and lt: "\<forall>x \<in> set ns. x < n"
  shows "tracks s (ns @ [n]) (extend_ranges rs n s)"
proof (cases "ns = []")
  case True
  with t have "rs = []" by (simp add: tracks_def)
  then show ?thesis
    using True
    by (simp add: tracks_def extend_ranges_def extends_last_def maximal_ranges_def range_ok_def range_lines_def)
next
  case False
  with t have ne: "rs \<noteq> []" and e: "range_end (last rs) = Some (last ns)"
    and m: "maximal_ranges s ns rs"
    by (simp_all add: tracks_def)
  from m have ok: "list_all (range_ok s) rs" and cv: "concat (map range_lines rs) = ns"
    and sp: "separated rs"
    by (simp_all add: maximal_ranges_def)
  from False lt have ln: "last ns < n" by simp
  obtain bs l where rs: "rs = bs @ [l]" using ne by (cases rs rule: rev_cases) auto
  from e rs have le: "range_end l = Some (last ns)" by simp
  from ok rs have okl: "range_ok s l" and okb: "list_all (range_ok s) bs" by simp_all
  from okl le obtain a where a: "range_start l = Some a" and ab: "a \<le> last ns"
    by (auto simp: range_ok_def split: option.splits)
  from sp rs have spb: "separated bs" and apb: "bs = [] \<or> apart (last bs) l"
    by (simp_all add: separated_snoc)
  show ?thesis
  proof (cases "last ns = n - 1")
    case True
    have ex: "extend_ranges (bs @ [l]) n s = bs @ [l\<lparr>range_end := Some n\<rparr>]"
      using True le by (simp add: extend_ranges_def extends_last_snoc)
    have an: "a \<le> n" using ab ln by simp
    have "[a..n] = [a..last ns] @ [n]"
      using True ab by (simp add: upto_rec2)
    then have l1: "range_lines (l\<lparr>range_end := Some n\<rparr>) = range_lines l @ [n]"
      using a le by (simp add: range_lines_def)
    have l2: "range_ok s (l\<lparr>range_end := Some n\<rparr>)"
      using okl a an by (simp add: range_ok_def)
    have l3: "bs = [] \<or> apart (last bs) (l\<lparr>range_end := Some n\<rparr>)"
    proof -
      have "apart (last bs) (l\<lparr>range_end := Some n\<rparr>) = apart (last bs) l"
        by (simp add: apart_def split: option.splits)
      with apb show ?thesis by blast
    qed
    show ?thesis
      using cv okb spb l1 l2 l3
      by (simp add: tracks_def maximal_ranges_def ex rs separated_snoc)
  next
    case F: False
    have ex: "extend_ranges (bs @ [l]) n s = (bs @ [l]) @ [\<lparr>range_start = Some n, range_end = Some n, coverage = s\<rparr>]"
      using F le by (simp add: extend_ranges_def extends_last_snoc)
    have ap: "apart (last rs) \<lparr>range_start = Some n, range_end = Some n, coverage = s\<rparr>"
      using F ln le rs by (simp add: apart_def)
    show ?thesis
      using cv ok sp ap ne unfolding rs
      by (simp add: tracks_def maximal_ranges_def ex separated_snoc range_ok_def range_lines_def
          del: append_assoc)
  qed
qed

lemma group_get_put: "group_get (group_put g k v) k' = (if k' = k then Some v else group_get g k')"
  by (induction g) (auto simp: group_get_def)

lemma map_fst_group_put:
  "map fst (group_put g k v) = (if k \<in> set (map fst g) then map fst g else map fst g @ [k])"
proof (induction g)
  case Nil
  show ?case by simp
next
  case (Cons e g)
  obtain k' v' where e: "e = (k', v')" by (cases e)
  show ?case
  proof (cases "k' = k")
    case True
    then show ?thesis by (simp add: e)
  next
    case False
    then show ?thesis using Cons by (simp add: e)
  qed
qed

lemma keys_group_put: "fst ` set (group_put g k v) = insert k (fst ` set g)"
proof -
  have "set (map fst (group_put g k v)) = insert k (set (map fst g))"
    by (simp only: map_fst_group_put) auto
  then show ?thesis by simp
qed

lemma distinct_group_put: "distinct (map fst g) \<Longrightarrow> distinct (map fst (group_put g k v))"
  by (simp add: map_fst_group_put)

lemma group_get_key: "group_get g k = Some rs \<Longrightarrow> k \<in> fst ` set g"
  by (auto simp: group_get_def dest: map_of_SomeD intro: rev_image_eqI)

lemma line_status_cases: "line_status a = 0 \<or> line_status a = 100"
  by (simp add: line_status_def)

lemma line_step_eq:
  assumes "parseInt (num a) = Some n"
  shows "line_step st (Some a) =
     Inr \<lparr>lineGroups =
            group_put (if group_get (lineGroups st) (line_status a) = None
                       then group_put (lineGroups st) (line_status a) [] else lineGroups st)
              (line_status a)
              (extend_ranges (group_ranges (lineGroups st) (line_status a)) n (line_status a)),
          methodCov =
            (if line_attrs.type a = Some ''method''
             then methodCov st @ [\<lparr>method = line_attrs.name a, method_cov.coverage = line_status a\<rparr>]
             else methodCov st)\<rparr>"
proof (cases "group_get (lineGroups st) (line_status a)")
  case None
  then show ?thesis
    using assms unfolding line_step_def Let_def line_status_def[symmetric]
    by (simp add: group_get_put group_ranges_def extend_ranges_def)
next
  case (Some rs)
  then show ?thesis
    using assms unfolding line_step_def Let_def line_status_def[symmetric]
    by (simp add: group_get_put group_ranges_def extend_ranges_def)
qed

lemma line_step_ranges:
  assumes p: "parseInt (num a) = Some n"
  shows "\<exists>st'. line_step st (Some a) = Inr st'
     \<and> (\<forall>s. group_ranges (lineGroups st') s =
           (if s = line_status a then extend_ranges (group_ranges (lineGroups st) s) n s
            else group_ranges (lineGroups st) s))
     \<and> fst ` set (lineGroups st') = insert (line_status a) (fst ` set (lineGroups st))
     \<and> (distinct (map fst (lineGroups st)) \<longrightarrow> distinct (map fst (lineGroups st')))"
proof -
  let ?g0 = "if group_get (lineGroups st) (line_status a) = None
             then group_put (lineGroups st) (line_status a) [] else lineGroups st"
  let ?g' = "group_put ?g0 (line_status a)
              (extend_ranges (group_ranges (lineGroups st) (line_status a)) n (line_status a))"
  have r: "group_ranges ?g' s =
           (if s = line_status a then extend_ranges (group_ranges (lineGroups st) s) n s
            else group_ranges (lineGroups st) s)" for s
    by (simp add: group_ranges_def group_get_put)
  have k: "fst ` set ?g' = insert (line_status a) (fst ` set (lineGroups st))"
    by (auto simp: keys_group_put)
  have d: "distinct (map fst (lineGroups st)) \<Longrightarrow> distinct (map fst ?g')"
    by (simp add: distinct_group_put)
  show ?thesis
    unfolding line_step_eq[OF p] using r k d by simp
qed

lemma line_numbers_append: "line_numbers (xs @ ys) = line_numbers xs @ line_numbers ys"
  by (simp add: line_numbers_def)

lemma lines_of_status_snoc:
  assumes "parseInt (num a) = Some n"
  shows "lines_of_status s (pre @ [a]) = lines_of_status s pre @ (if line_status a = s then [n] else [])"
  using assms by (simp add: lines_of_status_def line_numbers_def)

lemma lines_of_status_subset: "set (lines_of_status s pre) \<subseteq> set (line_numbers pre)"
  by (auto simp: lines_of_status_def line_numbers_def)

lemma groups_track_step:
  assumes g: "groups_track (lineGroups st) pre"
    and p: "parseInt (num a) = Some n"
    and lt: "\<forall>x \<in> set (line_numbers pre). x < n"
  shows "\<exists>st'. line_step st (Some a) = Inr st' \<and> groups_track (lineGroups st') (pre @ [a])"
proof -
  from line_step_ranges[OF p, of st] obtain st' where
    s: "line_step st (Some a) = Inr st'"
    and r: "\<And>s. group_ranges (lineGroups st') s =
           (if s = line_status a then extend_ranges (group_ranges (lineGroups st) s) n s
            else group_ranges (lineGroups st) s)"
    and k: "fst ` set (lineGroups st') = insert (line_status a) (fst ` set (lineGroups st))"
    and d: "distinct (map fst (lineGroups st)) \<longrightarrow> distinct (map fst (lineGroups st'))"
    by blast
  from g have t: "\<And>s. tracks s (lines_of_status s pre) (group_ranges (lineGroups st) s)"
    and ks: "set (map fst (lineGroups st)) \<subseteq> {0, 100}"
    and ds: "distinct (map fst (lineGroups st))"
    by (simp_all add: groups_track_def)
  have "tracks s (lines_of_status s (pre @ [a])) (group_ranges (lineGroups st') s)" for s
  proof (cases "s = line_status a")
    case True
    have "\<forall>x \<in> set (lines_of_status s pre). x < n"
      using lt lines_of_status_subset[of s pre] by blast
    from extend_tracks[OF t[of s] this] True show ?thesis
      by (simp add: r lines_of_status_snoc[OF p])
  next
    case False
    then show ?thesis using t[of s] by (simp add: r lines_of_status_snoc[OF p])
  qed
  moreover have "set (map fst (lineGroups st')) \<subseteq> {0, 100}"
    using k ks line_status_cases[of a] by auto
  moreover have "distinct (map fst (lineGroups st'))" using d ds by blast
  ultimately have "groups_track (lineGroups st') (pre @ [a])"
    by (simp add: groups_track_def)
  with s show ?thesis by blast
qed

lemma line_loop_tracks:
  assumes "groups_track (lineGroups st) pre"
    and "list_all (\<lambda>a. parseInt (num a) \<noteq> None) ls"
    and "sorted_wrt (<) (line_numbers (pre @ ls))"
  shows "\<exists>st'. line_loop st (map Some ls) = Inr st' \<and> groups_track (lineGroups st') (pre @ ls)"
  using assms
proof (induction ls arbitrary: st pre)
  case Nil
  then show ?case by simp
next
  case (Cons a ls)
  from Cons.prems(2) obtain n where p: "parseInt (num a) = Some n" by auto
  have ln: "line_numbers (pre @ a # ls) = line_numbers pre @ n # line_numbers ls"
    using p by (simp add: line_numbers_def)
  from Cons.prems(3) have lt: "\<forall>x \<in> set (line_numbers pre). x < n"
    unfolding ln by (auto simp: sorted_wrt_append)
  from groups_track_step[OF Cons.prems(1) p lt] obtain st1 where
    s1: "line_step st (Some a) = Inr st1" and g1: "groups_track (lineGroups st1) (pre @ [a])"
    by blast
  from Cons.prems(2) have a2: "list_all (\<lambda>a. parseInt (num a) \<noteq> None) ls" by simp
  from Cons.prems(3) have a3: "sorted_wrt (<) (line_numbers ((pre @ [a]) @ ls))" by simp
  from Cons.IH[OF g1 a2 a3] obtain st' where
    "line_loop st1 (map Some ls) = Inr st'" and "groups_track (lineGroups st') ((pre @ [a]) @ ls)"
    by blast
  with s1 show ?case by simp
qed

lemma ranges_in_key_order_two:
  assumes "set (map fst g) \<subseteq> {0, 100}" and "distinct (map fst g)"
  shows "ranges_in_key_order g = group_ranges g 0 @ group_ranges g 100"
proof -
  have k: "Object_keys g = sorted_list_of_set (set (map fst g))"
  proof -
    have "sorted_list_of_set (set (map fst g)) = sort (remdups (map fst g))"
      by (rule sorted_list_of_set_sort_remdups)
    also have "remdups (map fst g) = map fst g"
      using assms(2) by (rule distinct_remdups_id)
    finally show ?thesis by (simp only: Object_keys_def)
  qed
  have n: "k \<notin> set (map fst g) \<Longrightarrow> group_ranges g k = []" for k
  proof -
    assume "k \<notin> set (map fst g)"
    then have "map_of g k = None" by (simp add: map_of_eq_None_iff)
    then show ?thesis by (simp add: group_ranges_def group_get_def)
  qed
  define S where "S = set (map fst g)"
  have "S \<subseteq> {0, 100}" using assms(1) by (simp add: S_def)
  then have "S = {} \<or> S = {0} \<or> S = {100} \<or> S = {0, 100}"
    by (cases "0 \<in> S"; cases "100 \<in> S") auto
  then consider "set (map fst g) = {}" | "set (map fst g) = {0}"
    | "set (map fst g) = {100}" | "set (map fst g) = {0, 100}"
    unfolding S_def by blast
  then show ?thesis
  proof cases
    case 1
    have "Object_keys g = []" by (simp only: k 1) simp
    then show ?thesis using n[of 0] n[of 100] 1
      by (simp add: ranges_in_key_order_def del: set_map)
  next
    case 2
    have "Object_keys g = [0]" by (simp only: k 2) simp
    then show ?thesis using n[of 100] 2
      by (simp add: ranges_in_key_order_def group_ranges_def del: set_map)
  next
    case 3
    have "Object_keys g = [100]" by (simp only: k 3) simp
    then show ?thesis using n[of 0] 3
      by (simp add: ranges_in_key_order_def group_ranges_def del: set_map)
  next
    case 4
    have "Object_keys g = [0, 100]" by (simp only: k 4) simp
    then show ?thesis
      by (simp add: ranges_in_key_order_def group_ranges_def)
  qed
qed

lemma parse_digits:
  "parseInt (Some ''0'') = Some 0" "parseInt (Some ''1'') = Some 1" "parseInt (Some ''2'') = Some 2"
  "parseInt (Some ''3'') = Some 3" "parseInt (Some ''4'') = Some 4" "parseInt (Some ''5'') = Some 5"
  "parseInt (Some ''6'') = Some 6"
  by (simp_all add: parseInt_str_def is_space_def is_digit_def digits_val_def digit_val_def Let_def)

lemma six_lines_loop:
  "line_loop \<lparr>lineGroups = [], methodCov = []\<rparr> (map Some six_lines) =
     Inr \<lparr>lineGroups = [(100, [range_of 1 3 100, range_of 5 6 100]), (0, [range_of 4 4 0])],
          methodCov = []\<rparr>"
  by (simp add: six_lines_def line_of_def line_step_def Let_def parse_digits group_get_def
      extends_last_def range_of_def del: parseInt.simps)

lemma six_lines_text:
  "map range_entry [range_of 4 4 0, range_of 1 3 100, range_of 5 6 100] =
     [\<lparr>line_cov.line = ''4'', coverage = 0\<rparr>, \<lparr>line_cov.line = ''1-3'', coverage = 100\<rparr>,
      \<lparr>line_cov.line = ''5-6'', coverage = 100\<rparr>]"
  by (simp add: range_entry_def range_text_def range_of_def digits_of.simps digit_char_def)

lemma six_lines_order:
  "ranges_in_key_order [(100, [range_of 1 3 100, range_of 5 6 100]), (0, [range_of 4 4 0])] =
     [range_of 4 4 0, range_of 1 3 100, range_of 5 6 100]"
  by (simp add: ranges_in_key_order_def Object_keys_def group_get_def)

lemma six_lines_metrics:
  "createFileMetrics m (map Some six_lines) =
     Inr \<lparr>lines = Coverage (attr (metrics_attrs.statements m)) (attr (coveredstatements m)),
          stats_metrics.methods = Coverage (attr (metrics_attrs.methods m)) (attr (coveredmethods m)),
          branches = Coverage (attr (metrics_attrs.conditionals m)) (attr (coveredconditionals m)),
          lineCoverage =
            [\<lparr>line_cov.line = ''4'', coverage = 0\<rparr>, \<lparr>line_cov.line = ''1-3'', coverage = 100\<rparr>,
             \<lparr>line_cov.line = ''5-6'', coverage = 100\<rparr>],
          methodCoverage = []\<rparr>"
  by (simp add: createFileMetrics_def six_lines_loop six_lines_order six_lines_text
      del: list.map)

lemma six_lines_numbers: "line_numbers six_lines = [1, 2, 3, 4, 5, 6]"
  by (simp add: line_numbers_def six_lines_def line_of_def parse_digits del: parseInt.simps)

text \<open>
  Claim C4, as amended. For a file whose line records all carry a line number and
  arrive in ascending order of it, \<open>createFileMetrics\<close> merges the lines into maximal
  contiguous ranges of one status and emits them grouped by status: first the ranges
  of the lines that were not hit, then the ranges of the lines that were hit. Within
  each status the ranges cover exactly the lines of that status, in ascending order,
  and no two of them touch. For the lines 1, 2, 3, 5, 6 hit and the line 4 not hit
  the sequence is \<open>4\<close>, \<open>1-3\<close>, \<open>5-6\<close>.
\<close>

theorem createFileMetrics_line_ranges:
  assumes "list_all (\<lambda>a. parseInt (num a) \<noteq> None) ls"
    and "sorted_wrt (<) (line_numbers ls)"
  shows "\<exists>fm R0 R100.
           createFileMetrics m (map Some ls) = Inr fm
           \<and> lineCoverage fm = map range_entry (R0 @ R100)
           \<and> maximal_ranges 0 (lines_of_status 0 ls) R0
           \<and> maximal_ranges 100 (lines_of_status 100 ls) R100"
proof -
  have b: "groups_track (lineGroups \<lparr>lineGroups = [], methodCov = []\<rparr>) []"
    by (simp add: groups_track_def tracks_def maximal_ranges_def group_ranges_def group_get_def
        lines_of_status_def line_numbers_def)
  from assms(2) have s: "sorted_wrt (<) (line_numbers ([] @ ls))" by simp
  from line_loop_tracks[OF b assms(1) s] obtain st' where
    l: "line_loop \<lparr>lineGroups = [], methodCov = []\<rparr> (map Some ls) = Inr st'"
    and g: "groups_track (lineGroups st') ls"
    by auto
  from g have t0: "maximal_ranges 0 (lines_of_status 0 ls) (group_ranges (lineGroups st') 0)"
    and t1: "maximal_ranges 100 (lines_of_status 100 ls) (group_ranges (lineGroups st') 100)"
    and k: "set (map fst (lineGroups st')) \<subseteq> {0, 100}" and d: "distinct (map fst (lineGroups st'))"
    by (simp_all add: groups_track_def tracks_def)
  have o: "ranges_in_key_order (lineGroups st') =
             group_ranges (lineGroups st') 0 @ group_ranges (lineGroups st') 100"
    using k d by (rule ranges_in_key_order_two)
  show ?thesis
    apply (rule exI[of _ "\<lparr>lines = Coverage (attr (metrics_attrs.statements m)) (attr (coveredstatements m)),
               stats_metrics.methods = Coverage (attr (metrics_attrs.methods m)) (attr (coveredmethods m)),
               branches = Coverage (attr (metrics_attrs.conditionals m)) (attr (coveredconditionals m)),
               lineCoverage = map range_entry (ranges_in_key_order (lineGroups st')),
               methodCoverage = methodCov st'\<rparr>"])
    apply (rule exI[of _ "group_ranges (lineGroups st') 0"])
    apply (rule exI[of _ "group_ranges (lineGroups st') 100"])
    using l t0 t1 o by (simp add: createFileMetrics_def)
qed

theorem createFileMetrics_line_ranges_witness:
  "list_all (\<lambda>a. parseInt (num a) \<noteq> None) six_lines
   \<and> sorted_wrt (<) (line_numbers six_lines)
   \<and> lines_of_status 0 six_lines = [4]
   \<and> lines_of_status 100 six_lines = [1, 2, 3, 5, 6]
   \<and> (\<exists>fm R0 R100.
         createFileMetrics (metrics_of ''6'' ''5'' ''0'' ''0'') (map Some six_lines) = Inr fm
         \<and> lineCoverage fm = map range_entry (R0 @ R100)
         \<and> maximal_ranges 0 [4] R0
         \<and> maximal_ranges 100 [1, 2, 3, 5, 6] R100
         \<and> lineCoverage fm =
             [\<lparr>line_cov.line = ''4'', coverage = 0\<rparr>, \<lparr>line_cov.line = ''1-3'', coverage = 100\<rparr>,
              \<lparr>line_cov.line = ''5-6'', coverage = 100\<rparr>])"
proof -
  have 1: "list_all (\<lambda>a. parseInt (num a) \<noteq> None) six_lines"
    by (simp add: six_lines_def line_of_def parse_digits del: parseInt.simps)
  have 2: "sorted_wrt (<) (line_numbers six_lines)"
    by (simp add: six_lines_numbers)
  have 3: "lines_of_status 0 six_lines = [4]"
    by (simp add: lines_of_status_def line_status_def line_numbers_def six_lines_def line_of_def
        parse_digits del: parseInt.simps)
  have 4: "lines_of_status 100 six_lines = [1, 2, 3, 5, 6]"
    by (simp add: lines_of_status_def line_status_def line_numbers_def six_lines_def line_of_def
        parse_digits del: parseInt.simps)
  from createFileMetrics_line_ranges[OF 1 2, of "metrics_of ''6'' ''5'' ''0'' ''0''"]
  obtain fm R0 R100 where
    a: "createFileMetrics (metrics_of ''6'' ''5'' ''0'' ''0'') (map Some six_lines) = Inr fm"
    and b: "lineCoverage fm = map range_entry (R0 @ R100)"
    and c: "maximal_ranges 0 (lines_of_status 0 six_lines) R0"
    and d: "maximal_ranges 100 (lines_of_status 100 six_lines) R100"
    by blast
  from a have e: "lineCoverage fm =
             [\<lparr>line_cov.line = ''4'', coverage = 0\<rparr>, \<lparr>line_cov.line = ''1-3'', coverage = 100\<rparr>,
              \<lparr>line_cov.line = ''5-6'', coverage = 100\<rparr>]"
    unfolding six_lines_metrics by auto
  from a b c d e 1 2 3 4 show ?thesis by auto
qed

text \<open>
  Claim C4 as stated fails: for the lines 1, 2, 3, 5, 6 hit and the line 4 not hit the
  sequence is not in ascending order of lines; the range of the line 4 comes first.
\<close>

theorem line_order_counterexample:
  "createFileMetrics (metrics_of ''6'' ''5'' ''0'' ''0'') (map Some six_lines) =
     Inr \<lparr>lines = Coverage (JStr ''6'') (JStr ''5''),
          stats_metrics.methods = Coverage (JStr ''0'') (JStr ''0''),
          branches = Coverage (JStr ''0'') (JStr ''0''),
          lineCoverage =
            [\<lparr>line_cov.line = ''4'', coverage = 0\<rparr>, \<lparr>line_cov.line = ''1-3'', coverage = 100\<rparr>,
             \<lparr>line_cov.line = ''5-6'', coverage = 100\<rparr>],
          methodCoverage = []\<rparr>
   \<and> [\<lparr>line_cov.line = ''4'', coverage = 0\<rparr>, \<lparr>line_cov.line = ''1-3'', coverage = 100\<rparr>,
       \<lparr>line_cov.line = ''5-6'', coverage = 100\<rparr>]
     \<noteq> [\<lparr>line_cov.line = ''1-3'', coverage = 100\<rparr>, \<lparr>line_cov.line = ''4'', coverage = 0\<rparr>,
        \<lparr>line_cov.line = ''5-6'', coverage = 100\<rparr>]"
  by (simp add: six_lines_metrics metrics_of_def)


end
